theory Spec2Isabelle
  imports Complex_Main
begin

section \<open>Python strings\<close>

text \<open>
  A Python \<open>str\<close> is a sequence of code points and \<open>len\<close> counts them. The texts of
  the generation client, of the orchestrator and of the log are \<^typ>\<open>string\<close>, one
  \<^typ>\<open>char\<close> per code point, which covers the code points \<open>0\<close> to \<open>255\<close>. On this
  range \<open>str.isspace\<close> is the table below.
\<close>

definition isspace :: "char \<Rightarrow> bool" where
  "isspace c =
     (let n = (of_char c :: nat)
      in (9 \<le> n \<and> n \<le> 13) \<or> (28 \<le> n \<and> n \<le> 32) \<or> n = 133 \<or> n = 160)"

definition strip :: "string \<Rightarrow> string" where
  "strip s = rev (dropWhile isspace (rev (dropWhile isspace s)))"

text \<open>\<open>s.startswith(sub)\<close>, used by the two searches.\<close>

definition startswith :: "'a list \<Rightarrow> 'a list \<Rightarrow> bool" where
  "startswith s sub = (take (length sub) s = sub)"

text \<open>
  \<open>s.find(sub)\<close>: the lowest index at which \<open>sub\<close> occurs in \<open>s\<close>, and \<open>-1\<close> when it
  does not occur. The second argument of the helper is the index of the suffix
  under inspection.
\<close>

primrec find_from :: "'a list \<Rightarrow> nat \<Rightarrow> 'a list \<Rightarrow> int" where
  "find_from sub i [] = (if sub = [] then int i else - 1)"
| "find_from sub i (c # cs) =
     (if startswith (c # cs) sub then int i else find_from sub (Suc i) cs)"

definition find :: "'a list \<Rightarrow> 'a list \<Rightarrow> int" where
  "find s sub = find_from sub 0 s"

text \<open>\<open>s.rfind(sub)\<close>: the highest index at which \<open>sub\<close> occurs, and \<open>-1\<close> when none.\<close>

primrec rfind_from :: "'a list \<Rightarrow> nat \<Rightarrow> 'a list \<Rightarrow> int" where
  "rfind_from sub i [] = (if sub = [] then int i else - 1)"
| "rfind_from sub i (c # cs) =
     (let r = rfind_from sub (Suc i) cs
      in if r \<noteq> - 1 then r else if startswith (c # cs) sub then int i else - 1)"

definition rfind :: "'a list \<Rightarrow> 'a list \<Rightarrow> int" where
  "rfind s sub = rfind_from sub 0 s"

text \<open>\<open>sub in s\<close> on strings is substring containment.\<close>

definition contains :: "'a list \<Rightarrow> 'a list \<Rightarrow> bool" where
  "contains s sub = (find s sub \<noteq> - 1)"

text \<open>
  \<open>sub\<close> occurs in \<open>s\<close> at index \<open>i\<close>. The searches are stated against this
  predicate: \<open>find\<close> is the first occurrence, \<open>rfind\<close> the last.
\<close>

definition occurs_at :: "'a list \<Rightarrow> 'a list \<Rightarrow> nat \<Rightarrow> bool" where
  "occurs_at s sub i = (i \<le> length s \<and> startswith (drop i s) sub)"

text \<open>
  \<open>s[start:end]\<close>: a negative bound counts from the end, every bound is clamped to
  \<open>0 .. len(s)\<close>, and the slice is empty when the start is not before the end.
\<close>

definition slice_index :: "int \<Rightarrow> nat \<Rightarrow> nat" where
  "slice_index i n = (if i < 0 then nat (max 0 (i + int n)) else min (nat i) n)"

definition slice :: "'a list \<Rightarrow> int \<Rightarrow> int \<Rightarrow> 'a list" where
  "slice s start end =
     (let b = slice_index start (length s); e = slice_index end (length s)
      in take (e - b) (drop b s))"

text \<open>\<open>s[start:]\<close>, the slice without an upper bound.\<close>

definition slice_from :: "'a list \<Rightarrow> int \<Rightarrow> 'a list" where
  "slice_from s start = drop (slice_index start (length s)) s"

text \<open>\<open>sep.join(xs)\<close>.\<close>

fun join :: "string \<Rightarrow> string list \<Rightarrow> string" where
  "join sep [] = []"
| "join sep [x] = x"
| "join sep (x # y # ys) = x @ sep @ join sep (y # ys)"

text \<open>\<open>str(n)\<close> for a non-negative integer: its decimal digits.\<close>

fun str_nat :: "nat \<Rightarrow> string" where
  "str_nat n =
     (if n < 10 then [char_of (48 + n)]
      else str_nat (n div 10) @ [char_of (48 + n mod 10)])"

section \<open>Ingredient normalisation (\<open>RecipeService.sanitize_ingredients\<close>)\<close>

text \<open>
  The normaliser lowercases its texts, and \<open>str.lower\<close> does not keep the length of
  every text: it turns the code point \<open>U+0130\<close> into the two code points \<open>U+0069\<close>
  \<open>U+0307\<close>. The texts of the normaliser are therefore sequences of code points of any
  size, \<open>len\<close> is their length, and \<open>str.isspace\<close> is the whole table of the code
  points that Python takes for whitespace.
\<close>

type_synonym ustr = "nat list"

definition isspace_cp :: "nat \<Rightarrow> bool" where
  "isspace_cp n =
     ((9 \<le> n \<and> n \<le> 13) \<or> (28 \<le> n \<and> n \<le> 32) \<or> n = 133 \<or> n = 160 \<or> n = 5760 \<or>
      (8192 \<le> n \<and> n \<le> 8202) \<or> n = 8232 \<or> n = 8233 \<or> n = 8239 \<or> n = 8287 \<or>
      n = 12288)"

definition strip_cp :: "ustr \<Rightarrow> ustr" where
  "strip_cp s = rev (dropWhile isspace_cp (rev (dropWhile isspace_cp s)))"

text \<open>
  The loop of \<open>sanitize_ingredients\<close>, with the list \<open>sanitized\<close> as accumulator:
  each entry is stripped and lowercased and appended when the result is non-empty and
  of length at most 100. \<open>str.lower\<close> is the parameter \<open>lower\<close>: the model does not
  fix its table.
\<close>

fun sanitize_loop :: "(ustr \<Rightarrow> ustr) \<Rightarrow> ustr list \<Rightarrow> ustr list \<Rightarrow> ustr list" where
  "sanitize_loop lower sanitized [] = sanitized"
| "sanitize_loop lower sanitized (ingredient # rest) =
     (let cleaned = lower (strip_cp ingredient)
      in if cleaned \<noteq> [] \<and> length cleaned \<le> 100
         then sanitize_loop lower (sanitized @ [cleaned]) rest
         else sanitize_loop lower sanitized rest)"

definition sanitize_ingredients :: "(ustr \<Rightarrow> ustr) \<Rightarrow> ustr list \<Rightarrow> ustr list" where
  "sanitize_ingredients lower ingredients = sanitize_loop lower [] ingredients"

text \<open>
  The normaliser as the specification words it: the trimmed and lowercased forms of
  the entries whose trimmed form is non-empty and has at most 100 characters, in
  order.
\<close>

definition normalize_spec :: "(ustr \<Rightarrow> ustr) \<Rightarrow> ustr list \<Rightarrow> ustr list" where
  "normalize_spec lower raw =
     map (\<lambda>e. lower (strip_cp e))
       (filter (\<lambda>e. strip_cp e \<noteq> [] \<and> length (strip_cp e) \<le> 100) raw)"

section \<open>Exceptions and JSON values\<close>

text \<open>
  An exception is a value: its class and the text \<open>str(e)\<close> gives. \<open>ProviderError\<close>
  stands for whatever the call to the generative model raises. \<open>OutsideModel\<close> is not a
  Python exception: the decoder below answers with it where the decoded text would
  hold a code point above 255.
\<close>

datatype json =
    JNull
  | JBool bool
  | JInt int
  | JFloat string
  | JString string
  | JArray "json list"
  | JObject "(string \<times> json) list"

datatype py_exception =
    JSONDecodeError string
  | ValueError string
  | AttributeError string
  | TypeError string
  | FileNotFoundError string
  | ZeroDivisionError string
  | OverflowError string
  | ProviderError string
  | OutsideModel string


section \<open>The JSON decoder (\<open>json.loads\<close>)\<close>

text \<open>
  The program calls the decoder of the standard library. The program's functions take
  the decoder as a parameter (see \<open>runtime\<close> below); \<open>json_loads\<close> is the decoder
  itself, written after \<open>json.decoder\<close> and \<open>json.scanner\<close>: \<open>scan_once\<close> reads one
  value and returns it with the rest of the text. A float is kept as its literal. The
  messages of \<open>JSONDecodeError\<close> are abridged; the program never reads them.
\<close>

definition json_ws :: "char \<Rightarrow> bool" where
  "json_ws c = (c = CHR '' '' \<or> c = CHR 0x09 \<or> c = CHR 0x0A \<or> c = CHR 0x0D)"

definition skip_ws :: "string \<Rightarrow> string" where
  "skip_ws cs = dropWhile json_ws cs"

definition is_digit :: "char \<Rightarrow> bool" where
  "is_digit c = (48 \<le> (of_char c :: nat) \<and> (of_char c :: nat) \<le> 57)"

definition digit_val :: "char \<Rightarrow> nat" where
  "digit_val c = of_char c - 48"

definition hex_val :: "char \<Rightarrow> nat option" where
  "hex_val c =
     (let n = (of_char c :: nat)
      in if 48 \<le> n \<and> n \<le> 57 then Some (n - 48)
         else if 65 \<le> n \<and> n \<le> 70 then Some (n - 55)
         else if 97 \<le> n \<and> n \<le> 102 then Some (n - 87)
         else None)"

definition hex4 :: "char \<Rightarrow> char \<Rightarrow> char \<Rightarrow> char \<Rightarrow> nat option" where
  "hex4 a b c d =
     (case (hex_val a, hex_val b, hex_val c, hex_val d) of
        (Some x, Some y, Some z, Some w) \<Rightarrow> Some (((x * 16 + y) * 16 + z) * 16 + w)
      | _ \<Rightarrow> None)"

definition backslash :: "char \<Rightarrow> char option" where
  "backslash e =
     (if e = CHR 0x22 then Some (CHR 0x22)
      else if e = CHR 0x5C then Some (CHR 0x5C)
      else if e = CHR ''/'' then Some (CHR ''/'')
      else if e = CHR ''b'' then Some (CHR 0x08)
      else if e = CHR ''f'' then Some (CHR 0x0C)
      else if e = CHR ''n'' then Some (CHR 0x0A)
      else if e = CHR ''r'' then Some (CHR 0x0D)
      else if e = CHR ''t'' then Some (CHR 0x09)
      else None)"

fun scanstring :: "string \<Rightarrow> string \<Rightarrow> py_exception + (string \<times> string)" where
  "scanstring acc [] = Inl (JSONDecodeError ''Unterminated string starting at'')"
| "scanstring acc (c # cs) =
     (if c = CHR 0x22 then Inr (acc, cs)
      else if c = CHR 0x5C then
        (case cs of
           [] \<Rightarrow> Inl (JSONDecodeError ''Unterminated string starting at'')
         | e # cs1 \<Rightarrow>
             if e = CHR ''u'' then
               (case cs1 of
                  h1 # h2 # h3 # h4 # cs2 \<Rightarrow>
                    (case hex4 h1 h2 h3 h4 of
                       None \<Rightarrow> Inl (JSONDecodeError (''Invalid '' @ [CHR 0x5C] @ ''uXXXX escape''))
                     | Some n \<Rightarrow>
                         if n < 256 then scanstring (acc @ [char_of n]) cs2
                         else Inl (OutsideModel ''code point above 255''))
                | _ \<Rightarrow> Inl (JSONDecodeError (''Invalid '' @ [CHR 0x5C] @ ''uXXXX escape'')))
             else
               (case backslash e of
                  None \<Rightarrow> Inl (JSONDecodeError (''Invalid '' @ [CHR 0x5C] @ ''escape''))
                | Some ch \<Rightarrow> scanstring (acc @ [ch]) cs1))
      else if (of_char c :: nat) < 32 then
        Inl (JSONDecodeError ''Invalid control character at'')
      else scanstring (acc @ [c]) cs)"

text \<open>The scanners consume input; the recursion of the decoder rests on it.\<close>

lemma scanstring_length:
  "scanstring acc cs = Inr (s, r) \<Longrightarrow> length r < length cs"
proof (induction acc cs arbitrary: s r rule: scanstring.induct)
  case (1 acc)
  then show ?case by simp
next
  case (2 acc c cs)
  show ?case
  proof (cases "c = CHR 0x22")
    case True
    with "2.prems" show ?thesis by simp
  next
    case nq: False
    show ?thesis
    proof (cases "c = CHR 0x5C")
      case False
      with nq "2.prems" "2.IH"(3) show ?thesis
        by (fastforce split: if_splits)
    next
      case bs: True
      show ?thesis
      proof (cases cs)
        case Nil
        with nq bs "2.prems" show ?thesis by simp
      next
        case (Cons e cs1)
        show ?thesis
        proof (cases "e = CHR ''u''")
          case False
          with nq bs Cons "2.prems" "2.IH"(2) show ?thesis
            by (fastforce split: option.splits)
        next
          case True
          with nq bs Cons "2.prems" "2.IH"(1) show ?thesis
            by (fastforce split: list.splits option.splits if_splits)
        qed
      qed
    qed
  qed
qed

definition nat_of_digits :: "string \<Rightarrow> nat" where
  "nat_of_digits ds = foldl (\<lambda>a d. 10 * a + digit_val d) 0 ds"

definition match_integer :: "string \<Rightarrow> (string \<times> string) option" where
  "match_integer cs =
     (case cs of
        [] \<Rightarrow> None
      | c # rest \<Rightarrow>
          if c = CHR ''0'' then Some ([c], rest)
          else if is_digit c then Some (takeWhile is_digit cs, dropWhile is_digit cs)
          else None)"

definition match_frac :: "string \<Rightarrow> string \<times> string" where
  "match_frac cs =
     (case cs of
        p # d # rest \<Rightarrow>
          if p = CHR ''.'' \<and> is_digit d
          then (p # takeWhile is_digit (d # rest), dropWhile is_digit (d # rest))
          else ([], cs)
      | _ \<Rightarrow> ([], cs))"

definition match_exp :: "string \<Rightarrow> string \<times> string" where
  "match_exp cs =
     (case cs of
        [] \<Rightarrow> ([], cs)
      | e # rest \<Rightarrow>
          if e = CHR ''e'' \<or> e = CHR ''E'' then
            (let (sign, ds) =
                   (case rest of
                      [] \<Rightarrow> ([], rest)
                    | g # rest' \<Rightarrow>
                        if g = CHR ''-'' \<or> g = CHR ''+'' then ([g], rest') else ([], rest))
             in if ds \<noteq> [] \<and> is_digit (hd ds)
                then (e # sign @ takeWhile is_digit ds, dropWhile is_digit ds)
                else ([], cs))
          else ([], cs))"

definition match_number :: "string \<Rightarrow> (json \<times> string) option" where
  "match_number cs =
     (let (sign, r0) =
            (case cs of
               [] \<Rightarrow> ([], cs)
             | c # rest \<Rightarrow> if c = CHR ''-'' then ([c], rest) else ([], cs))
      in case match_integer r0 of
           None \<Rightarrow> None
         | Some (ds, r1) \<Rightarrow>
             (let (frac, r2) = match_frac r1; (ex, r3) = match_exp r2
              in if frac = [] \<and> ex = []
                 then Some (JInt (if sign = [] then int (nat_of_digits ds)
                                  else - int (nat_of_digits ds)), r3)
                 else Some (JFloat (sign @ ds @ frac @ ex), r3)))"

definition dict_set :: "('k \<times> 'v) list \<Rightarrow> 'k \<Rightarrow> 'v \<Rightarrow> ('k \<times> 'v) list" where
  "dict_set d k v =
     (if k \<in> set (map fst d) then map (\<lambda>(k', v'). if k' = k then (k', v) else (k', v')) d
      else d @ [(k, v)])"

lemma skip_ws_Cons_length: "skip_ws xs = y # ys \<Longrightarrow> length ys < length xs"
proof -
  assume a: "skip_ws xs = y # ys"
  have "length (skip_ws xs) \<le> length xs"
    unfolding skip_ws_def by (rule length_dropWhile_le)
  with a show ?thesis by simp
qed

lemma skip_ws_length: "length (skip_ws xs) \<le> length xs"
  unfolding skip_ws_def by (rule length_dropWhile_le)

text \<open>
  \<open>scan_once\<close>, \<open>JSONArray\<close> and \<open>JSONObject\<close>. The array and object loops continue on
  the rest that \<open>scan_once\<close> returns; the test \<open>length r < length cs\<close> that guards them
  always succeeds (lemma \<open>scan_once_progress\<close>) and makes the recursion well-founded.
\<close>

function scan_once :: "string \<Rightarrow> py_exception + (json \<times> string)"
  and scan_array :: "json list \<Rightarrow> string \<Rightarrow> py_exception + (json \<times> string)"
  and scan_object :: "(string \<times> json) list \<Rightarrow> string \<Rightarrow> py_exception + (json \<times> string)"
where
  "scan_once cs =
     (case cs of
        [] \<Rightarrow> Inl (JSONDecodeError ''Expecting value'')
      | c # rest \<Rightarrow>
          if c = CHR 0x22 then
            (case scanstring [] rest of
               Inl e \<Rightarrow> Inl e
             | Inr (s, r) \<Rightarrow> Inr (JString s, r))
          else if c = CHR ''{'' then
            (case skip_ws rest of
               [] \<Rightarrow> Inl (JSONDecodeError ''Expecting property name enclosed in double quotes'')
             | d # r \<Rightarrow>
                 if d = CHR ''}'' then Inr (JObject [], r)
                 else if d = CHR 0x22 then scan_object [] r
                 else Inl (JSONDecodeError ''Expecting property name enclosed in double quotes''))
          else if c = CHR ''['' then
            (case skip_ws rest of
               [] \<Rightarrow> Inl (JSONDecodeError ''Expecting value'')
             | d # r \<Rightarrow>
                 if d = CHR '']'' then Inr (JArray [], r)
                 else scan_array [] (d # r))
          else if c = CHR ''n'' \<and> startswith cs ''null'' then Inr (JNull, drop 4 cs)
          else if c = CHR ''t'' \<and> startswith cs ''true'' then Inr (JBool True, drop 4 cs)
          else if c = CHR ''f'' \<and> startswith cs ''false'' then Inr (JBool False, drop 5 cs)
          else
            (case match_number cs of
               Some res \<Rightarrow> Inr res
             | None \<Rightarrow>
                 if c = CHR ''N'' \<and> startswith cs ''NaN'' then Inr (JFloat ''NaN'', drop 3 cs)
                 else if c = CHR ''I'' \<and> startswith cs ''Infinity''
                   then Inr (JFloat ''Infinity'', drop 8 cs)
                 else if c = CHR ''-'' \<and> startswith cs ''-Infinity''
                   then Inr (JFloat ''-Infinity'', drop 9 cs)
                 else Inl (JSONDecodeError ''Expecting value'')))"
| "scan_array acc cs =
     (case scan_once cs of
        Inl e \<Rightarrow> Inl e
      | Inr (v, r) \<Rightarrow>
          if length r < length cs then
            (case skip_ws r of
               [] \<Rightarrow> Inl (JSONDecodeError ''Expecting , delimiter'')
             | d # r1 \<Rightarrow>
                 if d = CHR '']'' then Inr (JArray (acc @ [v]), r1)
                 else if d = CHR '','' then scan_array (acc @ [v]) (skip_ws r1)
                 else Inl (JSONDecodeError ''Expecting , delimiter''))
          else Inl (OutsideModel ''no progress''))"
| "scan_object acc cs =
     (case scanstring [] cs of
        Inl e \<Rightarrow> Inl e
      | Inr (key, r) \<Rightarrow>
          (case skip_ws r of
             [] \<Rightarrow> Inl (JSONDecodeError ''Expecting : delimiter'')
           | d # r1 \<Rightarrow>
               if d = CHR '':'' then
                 (case scan_once (skip_ws r1) of
                    Inl e \<Rightarrow> Inl e
                  | Inr (v, r2) \<Rightarrow>
                      if length r2 < length cs then
                        (case skip_ws r2 of
                           [] \<Rightarrow> Inl (JSONDecodeError ''Expecting , delimiter'')
                         | d2 # r3 \<Rightarrow>
                             if d2 = CHR ''}'' then Inr (JObject (dict_set acc key v), r3)
                             else if d2 = CHR '','' then
                               (case skip_ws r3 of
                                  [] \<Rightarrow> Inl (JSONDecodeError
                                     ''Expecting property name enclosed in double quotes'')
                                | d3 # r4 \<Rightarrow>
                                    if d3 = CHR 0x22 then scan_object (dict_set acc key v) r4
                                    else Inl (JSONDecodeError
                                      ''Expecting property name enclosed in double quotes''))
                             else Inl (JSONDecodeError ''Expecting , delimiter''))
                      else Inl (OutsideModel ''no progress''))
               else Inl (JSONDecodeError ''Expecting : delimiter'')))"
  by pat_completeness auto

termination
proof (relation "measure (\<lambda>x. case x of
          Inl cs \<Rightarrow> 2 * length cs
        | Inr (Inl (acc, cs)) \<Rightarrow> 2 * length cs + 1
        | Inr (Inr (acc, cs)) \<Rightarrow> 2 * length cs + 1)", goal_cases)
  case 1
  show ?case by simp
next
  case (2 cs c rest d r)
  then show ?case using skip_ws_Cons_length[of rest d r] by simp
next
  case (3 cs c rest d r)
  then show ?case using skip_ws_length[of rest] by simp
next
  case (4 acc cs)
  then show ?case by simp
next
  case (5 acc cs x v r d r1)
  then show ?case
    using skip_ws_Cons_length[of r d r1] skip_ws_length[of r1] by simp
next
  case (6 acc cs x key r d r1)
  then show ?case
    using scanstring_length[of "[]" cs key r] skip_ws_Cons_length[of r d r1] skip_ws_length[of r1]
    by simp
next
  case (7 acc cs x key r d r1 y v r2 d2 r3 d3 r4)
  then show ?case
    using skip_ws_Cons_length[of r2 d2 r3] skip_ws_Cons_length[of r3 d3 r4] by simp
qed

declare scan_once.simps [simp del] scan_array.simps [simp del] scan_object.simps [simp del]

definition json_loads :: "string \<Rightarrow> py_exception + json" where
  "json_loads s =
     (case scan_once (skip_ws s) of
        Inl e \<Rightarrow> Inl e
      | Inr (v, r) \<Rightarrow>
          if skip_ws r = [] then Inr v else Inl (JSONDecodeError ''Extra data''))"

section \<open>The models of \<open>models.py\<close>\<close>

record nutrition_info =
  calories :: int
  protein :: string
  carbs :: string

record recipe =
  name :: string
  ingredients :: "string list"
  instructions :: "string list"
  cookingTime :: string
  difficulty :: string
  nutrition :: nutrition_info

record recipe_response =
  recipes :: "recipe list"
  success :: bool
  message :: "string option"

section \<open>What the program calls outside itself\<close>

text \<open>
  \<open>generate_content\<close> is the round trip to the generative model,
  \<open>self.model.generate_content(prompt).text\<close>: the text it answers, or the exception it
  raises. \<open>loads\<close> is \<open>json.loads\<close>. \<open>str_validator\<close> and \<open>int_validator\<close> are the
  validators the model library runs on a value for a field declared \<open>str\<close> and
  \<open>int\<close>: the validated value, or \<open>None\<close> where the library rejects the value.
\<close>

record runtime =
  generate_content :: "string \<Rightarrow> py_exception + string"
  loads :: "string \<Rightarrow> py_exception + json"
  str_validator :: "json \<Rightarrow> string option"
  int_validator :: "json \<Rightarrow> int option"

fun str_exc :: "py_exception \<Rightarrow> string" where
  "str_exc (JSONDecodeError m) = m"
| "str_exc (ValueError m) = m"
| "str_exc (AttributeError m) = m"
| "str_exc (TypeError m) = m"
| "str_exc (FileNotFoundError m) = m"
| "str_exc (ZeroDivisionError m) = m"
| "str_exc (OverflowError m) = m"
| "str_exc (ProviderError m) = m"
| "str_exc (OutsideModel m) = m"

text \<open>\<open>type(v).__name__\<close> of a decoded value, between single quotes as in the messages.\<close>

fun type_name :: "json \<Rightarrow> string" where
  "type_name JNull = CHR 0x27 # ''NoneType'' @ [CHR 0x27]"
| "type_name (JBool b) = CHR 0x27 # ''bool'' @ [CHR 0x27]"
| "type_name (JInt i) = CHR 0x27 # ''int'' @ [CHR 0x27]"
| "type_name (JFloat f) = CHR 0x27 # ''float'' @ [CHR 0x27]"
| "type_name (JString s) = CHR 0x27 # ''str'' @ [CHR 0x27]"
| "type_name (JArray xs) = CHR 0x27 # ''list'' @ [CHR 0x27]"
| "type_name (JObject kvs) = CHR 0x27 # ''dict'' @ [CHR 0x27]"

section \<open>Construction of the models (\<open>Recipe(**recipe_data)\<close>)\<close>

text \<open>
  Every field of \<open>NutritionInfo\<close> and \<open>Recipe\<close> is required (\<open>Field(...)\<close>): a missing
  key rejects the candidate. A field of type \<open>List[str]\<close> takes a JSON array whose
  elements pass the \<open>str\<close> validator, the field \<open>nutrition\<close> takes a JSON object from
  which a \<open>NutritionInfo\<close> can be built. \<open>None\<close> is the exception of the constructor
  (\<open>ValidationError\<close>, or \<open>TypeError\<close> where the argument of \<open>**\<close> is not a mapping).
\<close>

definition list_str_validator :: "runtime \<Rightarrow> json \<Rightarrow> string list option" where
  "list_str_validator L v =
     (case v of JArray xs \<Rightarrow> those (map (str_validator L) xs) | _ \<Rightarrow> None)"

definition NutritionInfo_init :: "runtime \<Rightarrow> json \<Rightarrow> nutrition_info option" where
  "NutritionInfo_init L v =
     (case v of
        JObject kvs \<Rightarrow>
          (case (map_of kvs ''calories'', map_of kvs ''protein'', map_of kvs ''carbs'') of
             (Some c, Some p, Some b) \<Rightarrow>
               (case (int_validator L c, str_validator L p, str_validator L b) of
                  (Some c', Some p', Some b') \<Rightarrow>
                    Some \<lparr>calories = c', protein = p', carbs = b'\<rparr>
                | _ \<Rightarrow> None)
           | _ \<Rightarrow> None)
      | _ \<Rightarrow> None)"

definition Recipe_fields ::
  "(string \<times> json) list \<Rightarrow> (json \<times> json \<times> json \<times> json \<times> json \<times> json) option" where
  "Recipe_fields kvs =
     (case (map_of kvs ''name'', map_of kvs ''ingredients'', map_of kvs ''instructions'',
            map_of kvs ''cookingTime'', map_of kvs ''difficulty'', map_of kvs ''nutrition'') of
        (Some n, Some i, Some s, Some t, Some d, Some u) \<Rightarrow> Some (n, i, s, t, d, u)
      | _ \<Rightarrow> None)"

definition Recipe_init :: "runtime \<Rightarrow> json \<Rightarrow> recipe option" where
  "Recipe_init L recipe_data =
     (case recipe_data of
        JObject kvs \<Rightarrow>
          (case Recipe_fields kvs of
             Some (n, i, s, t, d, u) \<Rightarrow>
               (case (str_validator L n, list_str_validator L i, list_str_validator L s,
                      str_validator L t, str_validator L d, NutritionInfo_init L u) of
                  (Some n', Some i', Some s', Some t', Some d', Some u') \<Rightarrow>
                    Some \<lparr>name = n', ingredients = i', instructions = s', cookingTime = t',
                          difficulty = d', nutrition = u'\<rparr>
                | _ \<Rightarrow> None)
           | None \<Rightarrow> None)
      | _ \<Rightarrow> None)"

section \<open>The generation client (\<open>GeminiService\<close>)\<close>

text \<open>\<open>_create_recipe_prompt\<close>: the template around the comma-joined ingredients.\<close>

definition prompt_head :: string where
  \<open>prompt_head =
     ''\<newline>Generate 2-3 creative recipe suggestions using these ingredients: ''\<close>

definition prompt_tail :: string where
  \<open>prompt_tail =
     ''\<newline>\<newline>Requirements:\<newline>'' @
     ''- Each recipe must use the provided ingredients as primary components\<newline>'' @
     ''- Include estimated cooking time and difficulty level\<newline>'' @
     ''- Provide realistic nutritional information (calories, protein, carbs)\<newline>'' @
     ''- Format response as valid JSON only\<newline>'' @
     ''- Be creative but practical with cooking instructions\<newline>\<newline>'' @
     ''Response format (return ONLY valid JSON):\<newline>'' @
     ''{\<newline>'' @
     ''  "recipes": [\<newline>'' @
     ''    {\<newline>'' @
     ''      "name": "Recipe Name",\<newline>'' @
     ''      "ingredients": ["ingredient1", "ingredient2", "additional_ingredients_needed"],\<newline>'' @
     ''      "instructions": ["step1", "step2", "step3"],\<newline>'' @
     ''      "cookingTime": "X minutes",\<newline>'' @
     ''      "difficulty": "Easy/Medium/Hard",\<newline>'' @
     ''      "nutrition": {\<newline>'' @
     ''        "calories": X,\<newline>'' @
     ''        "protein": "Xg",\<newline>'' @
     ''        "carbs": "Xg"\<newline>'' @
     ''      }\<newline>'' @
     ''    }\<newline>'' @
     ''  ]\<newline>'' @
     ''}\<newline>\<newline>'' @
     ''Important: Return ONLY the JSON response, no additional text or explanations.\<newline>''\<close>

definition create_recipe_prompt :: "string list \<Rightarrow> string" where
  "create_recipe_prompt ingredient_list =
     prompt_head @ join '', '' ingredient_list @ prompt_tail"

text \<open>
  \<open>_parse_ai_response\<close>, first part: the value of \<open>cleaned_text\<close> when it reaches
  \<open>json.loads\<close>.
\<close>

definition cleaned_text :: "string \<Rightarrow> string" where
  \<open>cleaned_text response_text =
     (let cleaned = strip response_text
      in if contains cleaned ''```json'' then
           strip (slice cleaned (find cleaned ''```json'' + 7) (rfind cleaned ''```''))
         else if contains cleaned ''```'' then
           strip (slice cleaned (find cleaned ''```'' + 3) (rfind cleaned ''```''))
         else cleaned)\<close>

text \<open>
  \<open>data.get("recipes", [])\<close>: \<open>AttributeError\<close> when \<open>data\<close> is not a dictionary.
\<close>

definition get_recipes :: "json \<Rightarrow> py_exception + json" where
  "get_recipes data =
     (case data of
        JObject kvs \<Rightarrow>
          (case map_of kvs ''recipes'' of Some v \<Rightarrow> Inr v | None \<Rightarrow> Inr (JArray []))
      | _ \<Rightarrow>
          Inl (AttributeError (type_name data @ '' object has no attribute '' @
                 CHR 0x27 # ''get'' @ [CHR 0x27])))"

text \<open>
  What the \<open>for\<close> loop iterates over: the elements of a list, the characters of a
  string, the keys of a dictionary; \<open>TypeError\<close> for a value that is not iterable.
\<close>

definition iterate :: "json \<Rightarrow> py_exception + json list" where
  "iterate v =
     (case v of
        JArray xs \<Rightarrow> Inr xs
      | JString s \<Rightarrow> Inr (map (\<lambda>c. JString [c]) s)
      | JObject kvs \<Rightarrow> Inr (map (\<lambda>kv. JString (fst kv)) kvs)
      | _ \<Rightarrow> Inl (TypeError (type_name v @ '' object is not iterable'')))"

text \<open>
  The loop over the candidates, with the list \<open>recipes\<close> as accumulator \<open>rs\<close>: a candidate
  whose construction raises is skipped.
\<close>

fun parse_loop :: "runtime \<Rightarrow> recipe list \<Rightarrow> json list \<Rightarrow> recipe list" where
  "parse_loop L rs [] = rs"
| "parse_loop L rs (recipe_data # rest) =
     (case Recipe_init L recipe_data of
        Some r \<Rightarrow> parse_loop L (rs @ [r]) rest
      | None \<Rightarrow> parse_loop L rs rest)"

text \<open>The body of the \<open>try\<close> block of \<open>_parse_ai_response\<close>.\<close>

definition parse_body :: "runtime \<Rightarrow> string \<Rightarrow> py_exception + recipe list" where
  "parse_body L response_text =
     (case loads L (cleaned_text response_text) of
        Inl e \<Rightarrow> Inl e
      | Inr data \<Rightarrow>
          (case get_recipes data of
             Inl e \<Rightarrow> Inl e
           | Inr v \<Rightarrow>
               (case iterate v of
                  Inl e \<Rightarrow> Inl e
                | Inr candidates \<Rightarrow> Inr (parse_loop L [] candidates))))"

text \<open>
  \<open>_parse_ai_response\<close>: the two handlers turn a \<open>JSONDecodeError\<close> and any other
  exception of the body into a \<open>ValueError\<close>.
\<close>

definition parse_ai_response :: "runtime \<Rightarrow> string \<Rightarrow> py_exception + recipe list" where
  "parse_ai_response L response_text =
     (case parse_body L response_text of
        Inr rs \<Rightarrow> Inr rs
      | Inl (JSONDecodeError m) \<Rightarrow> Inl (ValueError ''Failed to parse AI response as JSON'')
      | Inl e \<Rightarrow> Inl (ValueError (''Failed to process AI response: '' @ str_exc e)))"

text \<open>\<open>generate_recipes\<close>: every exception of the body becomes a failure response.\<close>

definition generate_recipes :: "runtime \<Rightarrow> string list \<Rightarrow> recipe_response" where
  "generate_recipes L ingredient_list =
     (case (case generate_content L (create_recipe_prompt ingredient_list) of
              Inl e \<Rightarrow> Inl e
            | Inr text \<Rightarrow> parse_ai_response L text) of
        Inr rs \<Rightarrow>
          \<lparr>recipes = rs, success = True,
           message = Some (''Generated '' @ str_nat (length rs) @
                            '' recipes using your ingredients'')\<rparr>
      | Inl e \<Rightarrow>
          \<lparr>recipes = [], success = False,
           message = Some (''Failed to generate recipes: '' @ str_exc e)\<rparr>)"

section \<open>The orchestrator (\<open>RecipeService.generate_recipes_from_ingredients\<close>)\<close>

text \<open>
  The argument is \<open>request.ingredients\<close>. No statement of the \<open>try\<close> block raises
  outside \<open>generate_recipes\<close>, which catches its own exceptions, so the handler of the
  block has no branch here.
\<close>

definition generate_recipes_from_ingredients :: "runtime \<Rightarrow> string list \<Rightarrow> recipe_response" where
  "generate_recipes_from_ingredients L request_ingredients =
     (if request_ingredients = [] then
        \<lparr>recipes = [], success = False, message = Some ''No ingredients provided''\<rparr>
      else
        (let valid_ingredients = filter (\<lambda>ing. strip ing \<noteq> []) request_ingredients
         in if valid_ingredients = [] then
              \<lparr>recipes = [], success = False, message = Some ''No valid ingredients found''\<rparr>
            else
              (let response = generate_recipes L valid_ingredients
               in if \<not> success response then response
                  else if recipes response = [] then
                    \<lparr>recipes = [], success = False,
                     message = Some
                       ''No recipes could be generated with the provided ingredients''\<rparr>
                  else response)))"

section \<open>The interaction log (\<open>StorageService\<close>)\<close>

text \<open>
  A stored interaction is the dictionary \<open>interaction_data\<close> of \<open>store_interaction\<close>, one
  record per nested dictionary. The keys \<open>ingredients\<close>, \<open>recipes\<close> and \<open>success\<close> carry
  the suffix of their dictionary, since the models above have fields of these names.
  \<open>raw_response\<close> is optional because the code provides for \<open>llm_response\<close> being
  \<open>None\<close>.
\<close>

record user_input =
  ingredients_ui :: "string list"
  ingredient_count :: nat

record llm_interaction =
  raw_response :: "string option"
  response_length :: nat
  response_type :: string

record parsed_output =
  recipes_po :: "json list"
  recipe_count :: nat
  success_po :: bool

record metadata =
  error_message :: "string option"
  processing_status :: string

record interaction =
  interaction_id :: string
  timestamp :: string
  user_input :: user_input
  llm_interaction :: llm_interaction
  parsed_output :: parsed_output
  metadata :: metadata

text \<open>
  The service and its file: the name \<open>self.storage_file\<close> and the sequence under the key
  \<open>interactions\<close> of the document in that file, \<open>None\<close> when the file does not exist.
\<close>

record storage =
  storage_file :: string
  contents :: "interaction list option"

text \<open>One reading of the clock, \<open>datetime.now()\<close>, and the two ways it is printed.\<close>

record datetime =
  year :: nat
  month :: nat
  day :: nat
  hour :: nat
  minute :: nat
  second :: nat
  microsecond :: nat

definition zfill :: "nat \<Rightarrow> string \<Rightarrow> string" where
  "zfill w s = replicate (w - length s) (CHR ''0'') @ s"

text \<open>\<open>strftime("%Y%m%d_%H%M%S")\<close>: the reading down to the second.\<close>

definition strftime :: "datetime \<Rightarrow> string" where
  "strftime d =
     zfill 4 (str_nat (year d)) @ zfill 2 (str_nat (month d)) @ zfill 2 (str_nat (day d)) @
     ''_'' @
     zfill 2 (str_nat (hour d)) @ zfill 2 (str_nat (minute d)) @ zfill 2 (str_nat (second d))"

definition isoformat :: "datetime \<Rightarrow> string" where
  "isoformat d =
     zfill 4 (str_nat (year d)) @ ''-'' @ zfill 2 (str_nat (month d)) @ ''-'' @
     zfill 2 (str_nat (day d)) @ ''T'' @
     zfill 2 (str_nat (hour d)) @ '':'' @ zfill 2 (str_nat (minute d)) @ '':'' @
     zfill 2 (str_nat (second d)) @
     (if microsecond d = 0 then [] else ''.'' @ zfill 6 (str_nat (microsecond d)))"

definition ensure_storage_file_exists :: "storage \<Rightarrow> storage" where
  "ensure_storage_file_exists st =
     (case contents st of None \<Rightarrow> st\<lparr>contents := Some []\<rparr> | Some xs \<Rightarrow> st)"

definition generate_interaction_id :: "datetime \<Rightarrow> string" where
  "generate_interaction_id now = ''recipe_interaction_'' @ strftime now"

text \<open>
  \<open>store_interaction\<close> reads the clock twice, for the identifier and for the timestamp.
  It returns the identifier and the store with the record appended; opening a file
  that does not exist raises.
\<close>

definition store_interaction ::
  "datetime \<Rightarrow> datetime \<Rightarrow> string list \<Rightarrow> string option \<Rightarrow> json list \<Rightarrow> bool \<Rightarrow>
   string option \<Rightarrow> storage \<Rightarrow> py_exception + (string \<times> storage)" where
  "store_interaction now1 now2 user_ingredients llm_response parsed_recipes ok err st =
     (let iid = generate_interaction_id now1;
          interaction_data =
            \<lparr>interaction_id = iid,
             timestamp = isoformat now2,
             user_input =
               \<lparr>ingredients_ui = user_ingredients,
                ingredient_count = length user_ingredients\<rparr>,
             llm_interaction =
               \<lparr>raw_response = llm_response,
                response_length =
                  (case llm_response of
                     Some s \<Rightarrow> if s \<noteq> [] then length s else 0
                   | None \<Rightarrow> 0),
                response_type =
                  (case llm_response of Some s \<Rightarrow> ''str'' | None \<Rightarrow> ''NoneType'')\<rparr>,
             parsed_output =
               \<lparr>recipes_po = parsed_recipes,
                recipe_count = (if parsed_recipes \<noteq> [] then length parsed_recipes else 0),
                success_po = ok\<rparr>,
             metadata =
               \<lparr>error_message = err,
                processing_status = (if ok then ''success'' else ''failed'')\<rparr>\<rparr>
      in case contents st of
           None \<Rightarrow>
             Inl (FileNotFoundError (''[Errno 2] No such file or directory: '' @
                    CHR 0x27 # storage_file st @ [CHR 0x27]))
         | Some interactions \<Rightarrow>
             Inr (iid, st\<lparr>contents := Some (interactions @ [interaction_data])\<rparr>))"

definition get_all_interactions :: "storage \<Rightarrow> interaction list" where
  "get_all_interactions st = (case contents st of Some interactions \<Rightarrow> interactions | None \<Rightarrow> [])"

text \<open>The scan of \<open>get_interaction_by_id\<close>: the first record with the identifier.\<close>

primrec scan_by_id :: "string \<Rightarrow> interaction list \<Rightarrow> interaction option" where
  "scan_by_id iid [] = None"
| "scan_by_id iid (i # rest) =
     (if interaction_id i = iid then Some i else scan_by_id iid rest)"

definition get_interaction_by_id :: "storage \<Rightarrow> string \<Rightarrow> interaction option" where
  "get_interaction_by_id st iid = scan_by_id iid (get_all_interactions st)"

definition get_recent_interactions :: "storage \<Rightarrow> int \<Rightarrow> interaction list" where
  "get_recent_interactions st limit =
     (let interactions = get_all_interactions st
      in if interactions \<noteq> [] then slice_from interactions (- limit) else [])"

text \<open>
  The values of the dictionary of \<open>get_storage_stats\<close>: integers, floats and texts. The
  model leaves the type \<open>'f\<close> of the floats open and takes the two operations on them
  as parameters. \<open>true_quotient a b\<close> is the float that \<open>a / b\<close> evaluates to for two
  integers with \<open>b\<close> not zero, and \<open>None\<close> where the quotient is beyond the range of
  a float; \<open>float_times x n\<close> is the float that \<open>x * n\<close> evaluates to for a float \<open>x\<close>
  and an integer \<open>n\<close>.
\<close>

datatype 'f py_value = PyInt int | PyFloat 'f | PyStr string

record 'f float_ops =
  true_quotient :: "int \<Rightarrow> int \<Rightarrow> 'f option"
  float_times :: "'f \<Rightarrow> int \<Rightarrow> 'f"

text \<open>
  \<open>a / b\<close> on two integers: it raises on a zero divisor, and on a quotient that no
  float holds.
\<close>

definition truediv :: "'f float_ops \<Rightarrow> int \<Rightarrow> int \<Rightarrow> py_exception + 'f" where
  "truediv F a b =
     (if b = 0 then Inl (ZeroDivisionError ''division by zero'')
      else case true_quotient F a b of
             None \<Rightarrow> Inl (OverflowError ''integer division result too large for a float'')
           | Some q \<Rightarrow> Inr q)"

text \<open>
  \<open>getsize\<close> is \<open>os.path.getsize(self.storage_file)\<close>; \<open>os.path.exists\<close> holds when the
  store has a file.
\<close>

definition get_storage_stats ::
  "'f float_ops \<Rightarrow> storage \<Rightarrow> nat \<Rightarrow> py_exception + (string \<times> 'f py_value) list" where
  "get_storage_stats F st getsize =
     (let interactions = get_all_interactions st
      in if interactions = [] then Inr [(''total_interactions'', PyInt 0)]
         else
           (let total_interactions = int (length interactions);
                successful_interactions =
                  int (length (filter (\<lambda>i. success_po (parsed_output i)) interactions));
                failed_interactions = total_interactions - successful_interactions;
                total_recipes_generated =
                  sum_list (map (\<lambda>i. int (recipe_count (parsed_output i))) interactions)
            in case (if total_interactions > 0
                     then (case truediv F successful_interactions total_interactions of
                             Inl e \<Rightarrow> Inl e
                           | Inr q \<Rightarrow> Inr (PyFloat (float_times F q 100)))
                     else Inr (PyInt 0)) of
                 Inl e \<Rightarrow> Inl e
               | Inr success_rate \<Rightarrow>
                   (case (if successful_interactions > 0
                          then (case truediv F total_recipes_generated
                                       successful_interactions of
                                  Inl e \<Rightarrow> Inl e
                                | Inr q \<Rightarrow> Inr (PyFloat q))
                          else Inr (PyInt 0)) of
                      Inl e \<Rightarrow> Inl e
                    | Inr average \<Rightarrow>
                        Inr [(''total_interactions'', PyInt total_interactions),
                             (''successful_interactions'', PyInt successful_interactions),
                             (''failed_interactions'', PyInt failed_interactions),
                             (''success_rate'', success_rate),
                             (''total_recipes_generated'', PyInt total_recipes_generated),
                             (''average_recipes_per_interaction'', average),
                             (''storage_file'', PyStr (storage_file st)),
                             (''file_size_bytes'',
                                PyInt (if contents st \<noteq> None then int getsize else 0))])))"

section \<open>A runtime for the examples\<close>

text \<open>
  The model answers a fixed text, the decoder is \<open>json_loads\<close>, and the validators take
  a value of the declared type as it is and nothing else.
\<close>

definition strict_str :: "json \<Rightarrow> string option" where
  "strict_str v = (case v of JString s \<Rightarrow> Some s | _ \<Rightarrow> None)"

definition strict_int :: "json \<Rightarrow> int option" where
  "strict_int v = (case v of JInt i \<Rightarrow> Some i | _ \<Rightarrow> None)"

definition answering :: "string \<Rightarrow> runtime" where
  "answering text =
     \<lparr>generate_content = (\<lambda>prompt. Inr text), loads = json_loads,
      str_validator = strict_str, int_validator = strict_int\<rparr>"

text \<open>An answer of the model that holds one well-formed recipe.\<close>

definition sample_response :: string where
  \<open>sample_response =
     ''{"recipes":[{"name":"Omelette","ingredients":["egg"],'' @
     ''"instructions":["Beat","Fry"],"cookingTime":"5 minutes",'' @
     ''"difficulty":"Easy","nutrition":{"calories":150,"protein":"12g","carbs":"1g"}}]}''\<close>

text \<open>
  An answer with two candidates, the first without the fields \<open>instructions\<close>,
  \<open>cookingTime\<close>, \<open>difficulty\<close> and \<open>nutrition\<close>; the two candidates decoded; the
  recipe built from the second.
\<close>

definition two_candidates :: string where
  \<open>two_candidates =
     ''{"recipes":[{"name":"Broken","ingredients":["egg"]},'' @
     ''{"name":"Omelette","ingredients":["egg"],'' @
     ''"instructions":["Beat","Fry"],"cookingTime":"5 minutes",'' @
     ''"difficulty":"Easy","nutrition":{"calories":150,"protein":"12g","carbs":"1g"}}]}''\<close>

definition broken_candidate :: json where
  "broken_candidate =
     JObject [(''name'', JString ''Broken''), (''ingredients'', JArray [JString ''egg''])]"

definition omelette_candidate :: json where
  "omelette_candidate =
     JObject [(''name'', JString ''Omelette''), (''ingredients'', JArray [JString ''egg'']),
              (''instructions'', JArray [JString ''Beat'', JString ''Fry'']),
              (''cookingTime'', JString ''5 minutes''), (''difficulty'', JString ''Easy''),
              (''nutrition'',
               JObject [(''calories'', JInt 150), (''protein'', JString ''12g''),
                        (''carbs'', JString ''1g'')])]"

definition omelette :: recipe where
  "omelette =
     \<lparr>name = ''Omelette'', ingredients = [''egg''], instructions = [''Beat'', ''Fry''],
      cookingTime = ''5 minutes'', difficulty = ''Easy'',
      nutrition = \<lparr>calories = 150, protein = ''12g'', carbs = ''1g''\<rparr>\<rparr>"

text \<open>
  Stores and clock readings for the examples: a store with an empty document, a stored
  interaction with a given identifier, success flag and recipe count, two stores built
  from such interactions, and two readings of the clock within one second.
\<close>

definition empty_store :: storage where
  "empty_store = \<lparr>storage_file = ''recipe_interactions.json'', contents = Some []\<rparr>"

definition logged :: "string \<Rightarrow> bool \<Rightarrow> nat \<Rightarrow> interaction" where
  "logged iid ok n =
     \<lparr>interaction_id = iid, timestamp = ''2024-01-01T12:00:00'',
      user_input = \<lparr>ingredients_ui = [''egg''], ingredient_count = 1\<rparr>,
      llm_interaction =
        \<lparr>raw_response = Some ''{}'', response_length = 2, response_type = ''str''\<rparr>,
      parsed_output =
        \<lparr>recipes_po = replicate n (JObject []), recipe_count = n, success_po = ok\<rparr>,
      metadata =
        \<lparr>error_message = None,
         processing_status = (if ok then ''success'' else ''failed'')\<rparr>\<rparr>"

definition two_logged :: storage where
  "two_logged =
     \<lparr>storage_file = ''recipe_interactions.json'',
      contents = Some [logged ''a'' True 3, logged ''b'' False 0]\<rparr>"

definition one_failed :: storage where
  "one_failed =
     \<lparr>storage_file = ''recipe_interactions.json'', contents = Some [logged ''b'' False 0]\<rparr>"

definition noon :: datetime where
  "noon =
     \<lparr>year = 2024, month = 1, day = 1, hour = 12, minute = 0, second = 0, microsecond = 1\<rparr>"

definition noon_later :: datetime where
  "noon_later =
     \<lparr>year = 2024, month = 1, day = 1, hour = 12, minute = 0, second = 0, microsecond = 7\<rparr>"

text \<open>
  Answers of the model with fences: a closed JSON-tagged fence, a closed generic fence
  after a word of prose, a JSON-tagged fence that is never closed, and a closed
  JSON-tagged fence with a form feed on either side of the document.
\<close>

definition fenced_example :: string where
  \<open>fenced_example = ''```json\<newline>{"recipes":[]}\<newline>```''\<close>

definition generic_example :: string where
  \<open>generic_example = ''Here: ```\<newline>{"recipes":[]}\<newline>```''\<close>

definition unclosed_example :: string where
  \<open>unclosed_example = ''```json\<newline>{"recipes":[]}''\<close>

definition formfeed_example :: string where
  \<open>formfeed_example = ''```json'' @ [CHR 0x0C] @ ''{"recipes":[]}'' @ [CHR 0x0C] @ ''```''\<close>

text \<open>
  The floats of the examples are the expressions that compute them, left as they are
  written: \<open>IntDiv a b\<close> for \<open>a / b\<close> and \<open>FloatMul x n\<close> for \<open>x * n\<close>.
\<close>

datatype float_term = IntDiv int int | FloatMul float_term int

definition written :: "float_term float_ops" where
  "written = \<lparr>true_quotient = (\<lambda>a b. Some (IntDiv a b)), float_times = FloatMul\<rparr>"

text \<open>
  A \<open>str.lower\<close> for the examples. It is Python's on the code points \<open>0\<close> to \<open>255\<close>
  and on \<open>U+0130\<close>, the one code point whose lowercase form is longer than itself;
  it leaves every other code point as it is, which is not Python's table, and the
  examples hold none of them. \<open>cps\<close> gives the code points of a text.
\<close>

definition lower_cp :: "nat \<Rightarrow> ustr" where
  "lower_cp n =
     (if (65 \<le> n \<and> n \<le> 90) \<or> (192 \<le> n \<and> n \<le> 214) \<or> (216 \<le> n \<and> n \<le> 222)
      then [n + 32]
      else if n = 304 then [105, 775]
      else [n])"

definition lower_text :: "ustr \<Rightarrow> ustr" where
  "lower_text s = concat (map lower_cp s)"

definition cps :: "string \<Rightarrow> ustr" where
  "cps s = map of_char s"

definition pantry :: "ustr list" where
  "pantry = [cps ''  Tomato '', cps ''   '', cps ''EGG'', cps ''Tomato'']"

section \<open>Properties of the string operations\<close>

lemma dropWhile_hd: "dropWhile P xs \<noteq> [] \<Longrightarrow> \<not> P (hd (dropWhile P xs))"
  by (simp add: hd_dropWhile)

lemma dropWhile_last:
  "xs \<noteq> [] \<Longrightarrow> dropWhile P xs \<noteq> [] \<Longrightarrow> last (dropWhile P xs) = last xs"
  by (induction xs) (auto split: if_splits)

lemma dropWhile_id: "xs = [] \<or> \<not> P (hd xs) \<Longrightarrow> dropWhile P xs = xs"
  by (cases xs) auto

text \<open>A stripped text has no whitespace at either end, so stripping it again changes nothing.\<close>

lemma strip_idem: "strip (strip s) = strip s"
proof -
  define t where "t = dropWhile isspace s"
  define u where "u = dropWhile isspace (rev t)"
  have st: "strip s = rev u" by (simp add: strip_def t_def u_def)
  have t_hd: "t = [] \<or> \<not> isspace (hd t)"
    unfolding t_def using dropWhile_hd[of isspace s] by blast
  have u_hd: "u = [] \<or> \<not> isspace (hd u)"
    unfolding u_def using dropWhile_hd[of isspace "rev t"] by blast
  have u_last: "u = [] \<or> \<not> isspace (last u)"
  proof (cases "u = []")
    case True then show ?thesis by simp
  next
    case False
    then have tn: "rev t \<noteq> []" unfolding u_def by auto
    have "last u = last (rev t)"
      unfolding u_def using dropWhile_last[OF tn] False[unfolded u_def] by blast
    also have "\<dots> = hd t" using tn by (simp add: last_rev)
    finally show ?thesis using t_hd tn by auto
  qed
  have "dropWhile isspace (rev u) = rev u"
    using u_last by (intro dropWhile_id) (auto simp: hd_rev)
  then have "strip (rev u) = rev (dropWhile isspace u)"
    by (simp add: strip_def)
  also have "\<dots> = rev u" using u_hd by (simp add: dropWhile_id)
  finally show ?thesis by (simp add: st)
qed

text \<open>
  Trimming with any test \<open>P\<close>: the trimmed text has no \<open>P\<close> at either end, and a text
  with no \<open>P\<close> at either end is left as it is.
\<close>

lemma trim_ends:
  assumes "u = rev (dropWhile P (rev (dropWhile P s)))"
  shows "u = [] \<or> (\<not> P (hd u) \<and> \<not> P (last u))"
proof (cases "u = []")
  case True
  then show ?thesis by simp
next
  case False
  define t where "t = dropWhile P s"
  define w where "w = dropWhile P (rev t)"
  have u: "u = rev w" using assms by (simp add: t_def w_def)
  have wn: "w \<noteq> []" using False u by simp
  then have tn: "rev t \<noteq> []" unfolding w_def by auto
  have t_hd: "\<not> P (hd t)" using tn dropWhile_hd[of P s] by (simp add: t_def)
  have w_hd: "\<not> P (hd w)" using wn dropWhile_hd[of P "rev t"] by (simp add: w_def)
  have "last w = last (rev t)"
    unfolding w_def using dropWhile_last[OF tn] wn[unfolded w_def] by blast
  also have "\<dots> = hd t" using tn by (simp add: last_rev)
  finally have w_last: "\<not> P (last w)" using t_hd by simp
  show ?thesis using u wn w_hd w_last by (simp add: hd_rev last_rev)
qed

lemma trim_fixed:
  assumes "u = [] \<or> (\<not> P (hd u) \<and> \<not> P (last u))"
  shows "rev (dropWhile P (rev (dropWhile P u))) = u"
proof -
  have a: "dropWhile P u = u" using assms by (intro dropWhile_id) auto
  have b: "dropWhile P (rev u) = rev u"
    using assms by (intro dropWhile_id) (auto simp: hd_rev)
  show ?thesis by (simp add: a b)
qed

text \<open>
  The lowercasing of the examples leaves a lowercased text as it is, and it puts no
  whitespace at either end of a trimmed text.
\<close>

lemma lower_cp_twice: "concat (map lower_cp (lower_cp n)) = lower_cp n"
proof -
  consider (up) "(65 \<le> n \<and> n \<le> 90) \<or> (192 \<le> n \<and> n \<le> 214) \<or> (216 \<le> n \<and> n \<le> 222)"
    | (dot) "n = 304"
    | (other) "\<not> ((65 \<le> n \<and> n \<le> 90) \<or> (192 \<le> n \<and> n \<le> 214) \<or> (216 \<le> n \<and> n \<le> 222))"
        "n \<noteq> 304"
    by blast
  then show ?thesis
  proof cases
    case up
    then have a: "lower_cp n = [n + 32]" by (simp add: lower_cp_def)
    have "\<not> ((65 \<le> n + 32 \<and> n + 32 \<le> 90) \<or> (192 \<le> n + 32 \<and> n + 32 \<le> 214) \<or>
             (216 \<le> n + 32 \<and> n + 32 \<le> 222))" "n + 32 \<noteq> 304"
      using up by arith+
    then have "lower_cp (n + 32) = [n + 32]" unfolding lower_cp_def by simp
    with a show ?thesis by simp
  next
    case dot
    have "lower_cp 304 = [105, 775]" "lower_cp 105 = [105]" "lower_cp 775 = [775]"
      by (simp_all add: lower_cp_def)
    with dot show ?thesis by simp
  next
    case other
    then have "lower_cp n = [n]" unfolding lower_cp_def by simp
    then show ?thesis by simp
  qed
qed

lemma lower_text_append: "lower_text (xs @ ys) = lower_text xs @ lower_text ys"
  by (simp add: lower_text_def)

lemma lower_text_idem: "lower_text (lower_text s) = lower_text s"
proof (induction s)
  case Nil
  then show ?case by (simp add: lower_text_def)
next
  case (Cons n s)
  have "lower_text (lower_text (n # s)) = lower_text (lower_cp n @ lower_text s)"
    by (simp add: lower_text_def)
  also have "\<dots> = lower_text (lower_cp n) @ lower_text (lower_text s)"
    by (rule lower_text_append)
  also have "\<dots> = lower_cp n @ lower_text s"
    using Cons.IH lower_cp_twice[of n] by (simp add: lower_text_def)
  finally show ?case by (simp add: lower_text_def)
qed

lemma lower_cp_nonempty: "lower_cp n \<noteq> []"
  by (simp add: lower_cp_def)

lemma lower_cp_nonspace: "\<not> isspace_cp n \<Longrightarrow> m \<in> set (lower_cp n) \<Longrightarrow> \<not> isspace_cp m"
proof -
  assume ns: "\<not> isspace_cp n" and m: "m \<in> set (lower_cp n)"
  consider (up) "(65 \<le> n \<and> n \<le> 90) \<or> (192 \<le> n \<and> n \<le> 214) \<or> (216 \<le> n \<and> n \<le> 222)"
    | (dot) "n = 304"
    | (other) "\<not> ((65 \<le> n \<and> n \<le> 90) \<or> (192 \<le> n \<and> n \<le> 214) \<or> (216 \<le> n \<and> n \<le> 222))"
        "n \<noteq> 304"
    by blast
  then show ?thesis
  proof cases
    case up
    then have "lower_cp n = [n + 32]" by (simp add: lower_cp_def)
    with m have e: "m = n + 32" by simp
    have "(97 \<le> m \<and> m \<le> 122) \<or> (224 \<le> m \<and> m \<le> 254)" using up e by arith
    then show ?thesis unfolding isspace_cp_def by arith
  next
    case dot
    then have "lower_cp n = [105, 775]" by (simp add: lower_cp_def)
    with m have "m = 105 \<or> m = 775" by simp
    then show ?thesis unfolding isspace_cp_def by arith
  next
    case other
    then have "lower_cp n = [n]" unfolding lower_cp_def by simp
    with m ns show ?thesis by simp
  qed
qed

lemma lower_text_hd: "s \<noteq> [] \<Longrightarrow> hd (lower_text s) \<in> set (lower_cp (hd s))"
  using lower_cp_nonempty by (cases s) (auto simp: lower_text_def)

lemma lower_text_last: "s \<noteq> [] \<Longrightarrow> last (lower_text s) \<in> set (lower_cp (last s))"
proof -
  assume "s \<noteq> []"
  then obtain xs x where s: "s = xs @ [x]" by (metis rev_exhaust)
  have "lower_text s = lower_text xs @ lower_cp x"
    unfolding s lower_text_append by (simp add: lower_text_def)
  then show ?thesis using lower_cp_nonempty[of x] s by simp
qed

lemma lower_text_strip: "strip_cp (lower_text (strip_cp s)) = lower_text (strip_cp s)"
proof -
  let ?u = "strip_cp s"
  have e: "?u = [] \<or> (\<not> isspace_cp (hd ?u) \<and> \<not> isspace_cp (last ?u))"
    by (rule trim_ends) (simp add: strip_cp_def)
  have "lower_text ?u = [] \<or>
        (\<not> isspace_cp (hd (lower_text ?u)) \<and> \<not> isspace_cp (last (lower_text ?u)))"
  proof (cases "?u = []")
    case True
    then show ?thesis by (simp add: lower_text_def)
  next
    case False
    with e have h: "\<not> isspace_cp (hd ?u)" and l: "\<not> isspace_cp (last ?u)" by auto
    show ?thesis
      using lower_cp_nonspace[OF h lower_text_hd[OF False]]
        lower_cp_nonspace[OF l lower_text_last[OF False]] by simp
  qed
  then show ?thesis unfolding strip_cp_def[of "lower_text ?u"] by (rule trim_fixed)
qed

text \<open>A text of \<open>k\<close> code points \<open>U+0130\<close> is trimmed, and lowercasing doubles its length.\<close>

lemma dotted_not_space: "\<not> isspace_cp 304"
  by (simp add: isspace_cp_def)

lemma strip_dotted: "strip_cp (replicate k 304) = replicate k 304"
proof -
  have "replicate k 304 = [] \<or>
        (\<not> isspace_cp (hd (replicate k 304)) \<and> \<not> isspace_cp (last (replicate k 304)))"
    using dotted_not_space by (cases k) (simp_all add: last_replicate)
  then show ?thesis unfolding strip_cp_def by (rule trim_fixed)
qed

lemma lower_dotted_length: "length (lower_text (replicate k 304)) = 2 * k"
  by (induction k) (simp_all add: lower_text_def lower_cp_def)

section \<open>The normaliser\<close>

lemma sanitize_loop_eq:
  "sanitize_loop lower acc xs =
     acc @ filter (\<lambda>c. c \<noteq> [] \<and> length c \<le> 100) (map (\<lambda>e. lower (strip_cp e)) xs)"
  by (induction xs arbitrary: acc) (simp_all add: Let_def)

lemma sanitize_eq_filter:
  "sanitize_ingredients lower raw =
     filter (\<lambda>c. c \<noteq> [] \<and> length c \<le> 100) (map (\<lambda>e. lower (strip_cp e)) raw)"
  by (simp add: sanitize_ingredients_def sanitize_loop_eq)

text \<open>
  Where lowercasing keeps the length of the trimmed entries, the test on the lowercased
  form is the test on the trimmed form, and the normaliser is the one the specification
  words.
\<close>

lemma sanitize_eq_spec:
  assumes "\<forall>e \<in> set raw. length (lower (strip_cp e)) = length (strip_cp e)"
  shows "sanitize_ingredients lower raw = normalize_spec lower raw"
proof -
  have "filter (\<lambda>e. lower (strip_cp e) \<noteq> [] \<and> length (lower (strip_cp e)) \<le> 100) raw =
        filter (\<lambda>e. strip_cp e \<noteq> [] \<and> length (strip_cp e) \<le> 100) raw"
  proof (rule filter_cong[OF refl])
    fix e assume "e \<in> set raw"
    then have l: "length (lower (strip_cp e)) = length (strip_cp e)" using assms by blast
    then have "(lower (strip_cp e) = []) = (strip_cp e = [])"
      by (metis length_0_conv)
    with l show "(lower (strip_cp e) \<noteq> [] \<and> length (lower (strip_cp e)) \<le> 100) =
                 (strip_cp e \<noteq> [] \<and> length (strip_cp e) \<le> 100)" by simp
  qed
  then show ?thesis
    by (simp add: sanitize_eq_filter normalize_spec_def filter_map o_def)
qed

text \<open>
  Claim C9, as the code has it. For every raw list of texts and every \<open>lower\<close>,
  \<open>sanitize_ingredients\<close> returns the trimmed and lowercased forms of the entries, in
  their order and with their repetitions, keeping the forms that are non-empty and have
  at most 100 characters: the code tests the lowercased form, not the trimmed one.
  Hence the result is non-empty when some entry has a trimmed and lowercased form that
  is non-empty and has at most 100 characters. When \<open>lower\<close> leaves a lowercased text
  as it is and a trimmed text trimmed, every entry of the result is lowercase
  (\<open>lower\<close> leaves it as it is) and trimmed (\<open>strip_cp\<close> leaves it as it is). When
  \<open>lower\<close> keeps the length of the trimmed form of every entry of the list, the result
  is the one the specification words (\<open>normalize_spec\<close>): the trimmed and lowercased
  forms of the entries whose trimmed form is non-empty and has at most 100 characters.
\<close>

theorem sanitize_ingredients_correct:
  "sanitize_ingredients lower raw =
     filter (\<lambda>c. c \<noteq> [] \<and> length c \<le> 100) (map (\<lambda>e. lower (strip_cp e)) raw) \<and>
   ((\<exists>e \<in> set raw. lower (strip_cp e) \<noteq> [] \<and> length (lower (strip_cp e)) \<le> 100) \<longrightarrow>
      sanitize_ingredients lower raw \<noteq> []) \<and>
   ((\<forall>s. lower (lower s) = lower s) \<and>
    (\<forall>s. strip_cp (lower (strip_cp s)) = lower (strip_cp s)) \<longrightarrow>
      (\<forall>c \<in> set (sanitize_ingredients lower raw). lower c = c \<and> strip_cp c = c)) \<and>
   ((\<forall>e \<in> set raw. length (lower (strip_cp e)) = length (strip_cp e)) \<longrightarrow>
      sanitize_ingredients lower raw = normalize_spec lower raw)"
proof -
  have a: "(\<exists>e \<in> set raw. lower (strip_cp e) \<noteq> [] \<and> length (lower (strip_cp e)) \<le> 100) \<longrightarrow>
      sanitize_ingredients lower raw \<noteq> []"
    by (auto simp: sanitize_eq_filter filter_empty_conv)
  have b: "(\<forall>s. lower (lower s) = lower s) \<and>
    (\<forall>s. strip_cp (lower (strip_cp s)) = lower (strip_cp s)) \<longrightarrow>
      (\<forall>c \<in> set (sanitize_ingredients lower raw). lower c = c \<and> strip_cp c = c)"
    by (auto simp: sanitize_eq_filter)
  show ?thesis using sanitize_eq_filter a b sanitize_eq_spec by blast
qed

lemma pantry_lowered:
  "map (\<lambda>e. lower_text (strip_cp e)) pantry = [cps ''tomato'', [], cps ''egg'', cps ''tomato'']"
  by (simp add: pantry_def cps_def strip_cp_def isspace_cp_def lower_text_def lower_cp_def)

lemma pantry_lengths:
  "list_all (\<lambda>e. length (lower_text (strip_cp e)) = length (strip_cp e)) pantry"
  by (simp add: pantry_def cps_def strip_cp_def isspace_cp_def lower_text_def lower_cp_def)

lemma pantry_egg:
  "cps ''EGG'' \<in> set pantry \<and> lower_text (strip_cp (cps ''EGG'')) \<noteq> [] \<and>
   length (lower_text (strip_cp (cps ''EGG''))) \<le> 100"
  by (simp add: pantry_def cps_def strip_cp_def isspace_cp_def lower_text_def lower_cp_def)

theorem sanitize_ingredients_correct_witness:
  "sanitize_ingredients lower_text pantry = [cps ''tomato'', cps ''egg'', cps ''tomato''] \<and>
   sanitize_ingredients lower_text pantry \<noteq> [] \<and>
   list_all (\<lambda>c. lower_text c = c \<and> strip_cp c = c) (sanitize_ingredients lower_text pantry) \<and>
   sanitize_ingredients lower_text pantry = normalize_spec lower_text pantry"
proof -
  have h1: "\<exists>e \<in> set pantry.
              lower_text (strip_cp e) \<noteq> [] \<and> length (lower_text (strip_cp e)) \<le> 100"
    using pantry_egg by blast
  have h2: "\<forall>e \<in> set pantry. length (lower_text (strip_cp e)) = length (strip_cp e)"
    using pantry_lengths by (simp add: list_all_iff)
  have h3: "(\<forall>s. lower_text (lower_text s) = lower_text s) \<and>
            (\<forall>s. strip_cp (lower_text (strip_cp s)) = lower_text (strip_cp s))"
    using lower_text_idem lower_text_strip by blast
  note t = sanitize_ingredients_correct[of lower_text pantry]
  have v: "sanitize_ingredients lower_text pantry = [cps ''tomato'', cps ''egg'', cps ''tomato'']"
    using t by (simp add: pantry_lowered cps_def)
  have a: "sanitize_ingredients lower_text pantry \<noteq> []" using t h1 by blast
  have b: "\<forall>c \<in> set (sanitize_ingredients lower_text pantry). lower_text c = c \<and> strip_cp c = c"
    using t h3 by blast
  have c: "sanitize_ingredients lower_text pantry = normalize_spec lower_text pantry"
    using t h2 by blast
  show ?thesis using v a b c unfolding list_all_iff by blast
qed

text \<open>
  The claim as stated, with the test on the trimmed form, fails where lowercasing
  lengthens a text. The entry of 51 code points \<open>U+0130\<close> is not blank and its trimmed
  form has 51 characters; its lowercased form has 102, so the normaliser returns the
  empty list, where the specification has one entry.
\<close>

theorem sanitize_lengthening_counterexample:
  "length (replicate 51 (304 :: nat)) = 51 \<and>
   strip_cp (replicate 51 304) \<noteq> [] \<and> length (strip_cp (replicate 51 304)) \<le> 100 \<and>
   length (lower_text (strip_cp (replicate 51 304))) = 102 \<and>
   sanitize_ingredients lower_text [replicate 51 304] = [] \<and>
   normalize_spec lower_text [replicate 51 304] = [lower_text (replicate 51 304)]"
  by (simp add: strip_dotted sanitize_eq_filter normalize_spec_def lower_dotted_length)

section \<open>The result envelope\<close>

lemma generate_recipes_failure:
  "\<not> success (generate_recipes L ings) \<Longrightarrow>
     recipes (generate_recipes L ings) = [] \<and> message (generate_recipes L ings) \<noteq> None"
  by (auto simp: generate_recipes_def split: sum.splits)

lemma generate_recipes_message: "message (generate_recipes L ings) \<noteq> None"
  by (auto simp: generate_recipes_def split: sum.splits)

text \<open>Four runs of the example runtime, evaluated.\<close>

lemma orchestrator_on_sample:
  "generate_recipes_from_ingredients (answering sample_response) [''egg''] =
     \<lparr>recipes =
        [\<lparr>name = ''Omelette'', ingredients = [''egg''], instructions = [''Beat'', ''Fry''],
          cookingTime = ''5 minutes'', difficulty = ''Easy'',
          nutrition = \<lparr>calories = 150, protein = ''12g'', carbs = ''1g''\<rparr>\<rparr>],
      success = True,
      message = Some ''Generated 1 recipes using your ingredients''\<rparr>"
  by code_simp

lemma orchestrator_on_prose:
  "generate_recipes_from_ingredients (answering ''not json at all'') [''egg''] =
     \<lparr>recipes = [], success = False,
      message = Some ''Failed to generate recipes: Failed to parse AI response as JSON''\<rparr>"
  by code_simp

lemma client_on_prose:
  "generate_recipes (answering ''not json at all'') [''egg''] =
     \<lparr>recipes = [], success = False,
      message = Some ''Failed to generate recipes: Failed to parse AI response as JSON''\<rparr>"
  by code_simp

lemma client_on_sample: "success (generate_recipes (answering sample_response) [''egg''])"
  by code_simp

text \<open>
  Claim C1, as the code has it. Every response of the orchestrator
  \<open>generate_recipes_from_ingredients\<close> satisfies the envelope invariant: a successful
  one has a non-empty recipe list, a failed one has an empty recipe list and a message.
  Every failed response of the client \<open>generate_recipes\<close> has an empty recipe list and a
  message, and every successful one has a message; its recipe list may be empty.
\<close>

theorem envelope_invariant:
  "(success (generate_recipes_from_ingredients L ings) \<longrightarrow>
      recipes (generate_recipes_from_ingredients L ings) \<noteq> []) \<and>
   (\<not> success (generate_recipes_from_ingredients L ings) \<longrightarrow>
      recipes (generate_recipes_from_ingredients L ings) = [] \<and>
      message (generate_recipes_from_ingredients L ings) \<noteq> None) \<and>
   (\<not> success (generate_recipes L ings) \<longrightarrow>
      recipes (generate_recipes L ings) = [] \<and> message (generate_recipes L ings) \<noteq> None) \<and>
   (success (generate_recipes L ings) \<longrightarrow> message (generate_recipes L ings) \<noteq> None)"
proof -
  let ?v = "filter (\<lambda>ing. strip ing \<noteq> []) ings"
  have orch:
    "(success (generate_recipes_from_ingredients L ings) \<longrightarrow>
        recipes (generate_recipes_from_ingredients L ings) \<noteq> []) \<and>
     (\<not> success (generate_recipes_from_ingredients L ings) \<longrightarrow>
        recipes (generate_recipes_from_ingredients L ings) = [] \<and>
        message (generate_recipes_from_ingredients L ings) \<noteq> None)"
    using generate_recipes_failure[of L ?v]
    by (simp add: generate_recipes_from_ingredients_def Let_def)
  show ?thesis
    using orch generate_recipes_failure[of L ings] generate_recipes_message[of L ings]
    by blast
qed

theorem envelope_invariant_witness:
  "success (generate_recipes_from_ingredients (answering sample_response) [''egg'']) \<and>
   recipes (generate_recipes_from_ingredients (answering sample_response) [''egg'']) \<noteq> [] \<and>
   \<not> success (generate_recipes_from_ingredients (answering ''not json at all'') [''egg'']) \<and>
   recipes (generate_recipes_from_ingredients (answering ''not json at all'') [''egg'']) = [] \<and>
   message (generate_recipes_from_ingredients (answering ''not json at all'') [''egg'']) \<noteq> None \<and>
   \<not> success (generate_recipes (answering ''not json at all'') [''egg'']) \<and>
   recipes (generate_recipes (answering ''not json at all'') [''egg'']) = [] \<and>
   message (generate_recipes (answering ''not json at all'') [''egg'']) \<noteq> None \<and>
   success (generate_recipes (answering sample_response) [''egg'']) \<and>
   message (generate_recipes (answering sample_response) [''egg'']) \<noteq> None"
proof -
  have a: "success (generate_recipes_from_ingredients (answering sample_response) [''egg''])"
    by (simp add: orchestrator_on_sample)
  have b: "\<not> success (generate_recipes_from_ingredients (answering ''not json at all'') [''egg''])"
    by (simp add: orchestrator_on_prose)
  have c: "\<not> success (generate_recipes (answering ''not json at all'') [''egg''])"
    by (simp add: client_on_prose)
  show ?thesis
    using envelope_invariant[of "answering sample_response" "[''egg'']"]
      envelope_invariant[of "answering ''not json at all''" "[''egg'']"] a b c client_on_sample
    by blast
qed

text \<open>
  The claim as stated fails for the client: when the model answers a document with an
  empty \<open>recipes\<close> array, \<open>generate_recipes\<close> reports success with no recipe.
\<close>

theorem envelope_client_counterexample:
  \<open>success (generate_recipes (answering ''{"recipes":[]}'') [''egg'']) \<and>
   recipes (generate_recipes (answering ''{"recipes":[]}'') [''egg'']) = []\<close>
  by code_simp

section \<open>The checks of the orchestrator\<close>

text \<open>
  Claim C2, as the code has it. An empty ingredient list yields the failure response
  with the message \<open>No ingredients provided\<close>; a non-empty list whose entries are all
  blank yields the failure response with the message \<open>No valid ingredients found\<close>.
  Both have an empty recipe list, and the function returns a response on every input.
  The orchestrator does not look at the length of an entry.
\<close>

theorem orchestrator_short_circuit:
  "generate_recipes_from_ingredients L [] =
     \<lparr>recipes = [], success = False, message = Some ''No ingredients provided''\<rparr> \<and>
   (ings \<noteq> [] \<and> (\<forall>i \<in> set ings. strip i = []) \<longrightarrow>
      generate_recipes_from_ingredients L ings =
        \<lparr>recipes = [], success = False, message = Some ''No valid ingredients found''\<rparr>)"
  by (auto simp: generate_recipes_from_ingredients_def Let_def filter_empty_conv)

lemma blank_entries: "strip ''  '' = [] \<and> strip [] = [] \<and> strip [CHR 0x09, CHR 0x0A] = []"
  by code_simp

theorem orchestrator_short_circuit_witness:
  "[''  '', [], [CHR 0x09, CHR 0x0A]] \<noteq> [] \<and>
   list_all (\<lambda>i. strip i = []) [''  '', [], [CHR 0x09, CHR 0x0A]] \<and>
   generate_recipes_from_ingredients (answering sample_response)
       [''  '', [], [CHR 0x09, CHR 0x0A]] =
     \<lparr>recipes = [], success = False, message = Some ''No valid ingredients found''\<rparr>"
proof -
  have h: "\<forall>i \<in> set [''  '', [], [CHR 0x09, CHR 0x0A]]. strip i = []"
    using blank_entries by simp
  show ?thesis
    using orchestrator_short_circuit[of "answering sample_response"
        "[''  '', [], [CHR 0x09, CHR 0x0A]]"] h
    unfolding list_all_iff by blast
qed

text \<open>
  The claim as stated fails on a list whose only entry is over-length: the entry is
  not blank, so the generation runs, and the response is the model's.
\<close>

theorem orchestrator_overlength_counterexample:
  "100 < length (strip (replicate 101 (CHR ''a''))) \<and>
   success (generate_recipes_from_ingredients (answering sample_response)
              [replicate 101 (CHR ''a'')])"
  by code_simp

section \<open>Failure of the whole batch\<close>

lemma parse_loop_eq: "parse_loop L acc xs = acc @ List.map_filter (Recipe_init L) xs"
  by (induction xs arbitrary: acc) (auto simp: List.map_filter_simps split: option.splits)

lemma parse_decode_error:
  "loads L (cleaned_text raw) = Inl (JSONDecodeError m) \<Longrightarrow>
     parse_ai_response L raw = Inl (ValueError ''Failed to parse AI response as JSON'')"
  by (simp add: parse_ai_response_def parse_body_def)

text \<open>
  Claim C3. When the decoder does not decode the extracted candidate (it raises
  \<open>JSONDecodeError\<close>), \<open>_parse_ai_response\<close> fails as a whole with the \<open>ValueError\<close>
  \<open>Failed to parse AI response as JSON\<close>: it returns no recipe list, partial or empty.
  \<open>generate_recipes\<close>, given that text by the model, catches the error and returns the
  response with \<open>success = False\<close>, no recipe and the error's description in its
  message, and the orchestrator returns that response as it is. The witness is the
  raw text \<open>not json at all\<close>.
\<close>

theorem batch_fatal:
  "loads L (cleaned_text raw) = Inl (JSONDecodeError m) \<Longrightarrow>
     parse_ai_response L raw = Inl (ValueError ''Failed to parse AI response as JSON'') \<and>
     (generate_content L (create_recipe_prompt ings) = Inr raw \<longrightarrow>
        generate_recipes L ings =
          \<lparr>recipes = [], success = False,
           message = Some (''Failed to generate recipes: '' @
                           ''Failed to parse AI response as JSON'')\<rparr>) \<and>
     (filter (\<lambda>ing. strip ing \<noteq> []) ings \<noteq> [] \<and>
      generate_content L (create_recipe_prompt (filter (\<lambda>ing. strip ing \<noteq> []) ings)) =
        Inr raw \<longrightarrow>
        generate_recipes_from_ingredients L ings =
          \<lparr>recipes = [], success = False,
           message = Some (''Failed to generate recipes: '' @
                           ''Failed to parse AI response as JSON'')\<rparr>)"
proof -
  assume d: "loads L (cleaned_text raw) = Inl (JSONDecodeError m)"
  have p: "parse_ai_response L raw = Inl (ValueError ''Failed to parse AI response as JSON'')"
    using d by (rule parse_decode_error)
  have g: "generate_recipes L xs =
             \<lparr>recipes = [], success = False,
              message = Some (''Failed to generate recipes: '' @
                              ''Failed to parse AI response as JSON'')\<rparr>"
    if "generate_content L (create_recipe_prompt xs) = Inr raw" for xs
    using that p by (simp add: generate_recipes_def)
  have o: "generate_recipes_from_ingredients L ings =
             \<lparr>recipes = [], success = False,
              message = Some (''Failed to generate recipes: '' @
                              ''Failed to parse AI response as JSON'')\<rparr>"
    if "filter (\<lambda>ing. strip ing \<noteq> []) ings \<noteq> []"
      and "generate_content L (create_recipe_prompt (filter (\<lambda>ing. strip ing \<noteq> []) ings)) =
             Inr raw"
    using that g[OF that(2)]
    by (auto simp: generate_recipes_from_ingredients_def Let_def)
  show ?thesis using p g o by blast
qed

lemma prose_undecodable:
  "loads (answering ''not json at all'') (cleaned_text ''not json at all'') =
     Inl (JSONDecodeError ''Expecting value'')"
  by code_simp

lemma answering_content: "generate_content (answering t) p = Inr t"
  by (simp add: answering_def)

theorem batch_fatal_witness:
  "loads (answering ''not json at all'') (cleaned_text ''not json at all'') =
     Inl (JSONDecodeError ''Expecting value'') \<and>
   parse_ai_response (answering ''not json at all'') ''not json at all'' =
     Inl (ValueError ''Failed to parse AI response as JSON'') \<and>
   generate_recipes (answering ''not json at all'') [''egg''] =
     \<lparr>recipes = [], success = False,
      message = Some (''Failed to generate recipes: '' @
                      ''Failed to parse AI response as JSON'')\<rparr> \<and>
   generate_recipes_from_ingredients (answering ''not json at all'') [''egg''] =
     \<lparr>recipes = [], success = False,
      message = Some (''Failed to generate recipes: '' @
                      ''Failed to parse AI response as JSON'')\<rparr>"
proof -
  have f: "filter (\<lambda>ing. strip ing \<noteq> []) [''egg''] = [''egg'']"
    by code_simp
  show ?thesis
    using batch_fatal[OF prose_undecodable, of "[''egg'']"] prose_undecodable f
      answering_content[of "''not json at all''" "create_recipe_prompt [''egg'']"]
    by simp
qed

section \<open>Leniency per record\<close>

lemma Recipe_fields_missing:
  "k \<in> set [''name'', ''ingredients'', ''instructions'', ''cookingTime'', ''difficulty'',
             ''nutrition''] \<Longrightarrow> map_of kvs k = None \<Longrightarrow> Recipe_fields kvs = None"
  by (auto simp: Recipe_fields_def split: option.splits)

lemma Recipe_init_missing:
  "k \<in> set [''name'', ''ingredients'', ''instructions'', ''cookingTime'', ''difficulty'',
             ''nutrition''] \<Longrightarrow> map_of kvs k = None \<Longrightarrow> Recipe_init L (JObject kvs) = None"
  using Recipe_fields_missing[of k kvs] by (simp add: Recipe_init_def)

text \<open>
  Claim C5, as the code has it. For a decoded payload that is a JSON object:
  when the key \<open>recipes\<close> is absent the result is the empty sequence; when it holds an
  array the result is exactly the recipes built from the elements whose construction
  succeeds, in their order, the other elements being skipped one by one
  (\<open>List.map_filter\<close>); and an element that lacks a required field is one whose
  construction fails. In both cases \<open>_parse_ai_response\<close> returns and does not raise.
\<close>

theorem per_record_leniency:
  "loads L (cleaned_text raw) = Inr (JObject kvs) \<Longrightarrow>
     (map_of kvs ''recipes'' = None \<longrightarrow> parse_ai_response L raw = Inr []) \<and>
     (map_of kvs ''recipes'' = Some (JArray xs) \<longrightarrow>
        parse_ai_response L raw = Inr (List.map_filter (Recipe_init L) xs)) \<and>
     (\<forall>k \<in> set [''name'', ''ingredients'', ''instructions'', ''cookingTime'', ''difficulty'',
                 ''nutrition''].
        \<forall>fields. map_of fields k = None \<longrightarrow> Recipe_init L (JObject fields) = None)"
proof -
  assume d: "loads L (cleaned_text raw) = Inr (JObject kvs)"
  have a: "map_of kvs ''recipes'' = None \<longrightarrow> parse_ai_response L raw = Inr []"
    using d by (simp add: parse_ai_response_def parse_body_def get_recipes_def iterate_def)
  have b: "map_of kvs ''recipes'' = Some (JArray xs) \<longrightarrow>
        parse_ai_response L raw = Inr (List.map_filter (Recipe_init L) xs)"
    using d by (simp add: parse_ai_response_def parse_body_def get_recipes_def iterate_def
        parse_loop_eq)
  have c: "\<forall>k \<in> set [''name'', ''ingredients'', ''instructions'', ''cookingTime'', ''difficulty'',
                 ''nutrition''].
        \<forall>fields. map_of fields k = None \<longrightarrow> Recipe_init L (JObject fields) = None"
    using Recipe_init_missing by blast
  show ?thesis using a b c by blast
qed

lemma two_candidates_decoded:
  "loads (answering []) (cleaned_text two_candidates) =
     Inr (JObject [(''recipes'', JArray [broken_candidate, omelette_candidate])])"
  by code_simp

lemma empty_object_decoded: "loads (answering []) (cleaned_text ''{}'') = Inr (JObject [])"
  by code_simp

lemma candidates_filtered:
  "List.map_filter (Recipe_init (answering [])) [broken_candidate, omelette_candidate] =
     [omelette]"
  by code_simp

lemma broken_lacks_instructions:
  "map_of [(''name'', JString ''Broken''), (''ingredients'', JArray [JString ''egg''])]
     ''instructions'' = None"
  by simp

theorem per_record_leniency_witness:
  "loads (answering []) (cleaned_text two_candidates) =
     Inr (JObject [(''recipes'', JArray [broken_candidate, omelette_candidate])]) \<and>
   parse_ai_response (answering []) two_candidates = Inr [omelette] \<and>
   loads (answering []) (cleaned_text ''{}'') = Inr (JObject []) \<and>
   parse_ai_response (answering []) ''{}'' = Inr [] \<and>
   Recipe_init (answering []) broken_candidate = None"
proof -
  have a: "parse_ai_response (answering []) two_candidates = Inr [omelette]"
    using per_record_leniency[OF two_candidates_decoded,
        of "[broken_candidate, omelette_candidate]"] candidates_filtered
    by simp
  have b: "parse_ai_response (answering []) ''{}'' = Inr []"
    using per_record_leniency[OF empty_object_decoded] by simp
  have c: "Recipe_init (answering []) broken_candidate = None"
    using per_record_leniency[OF empty_object_decoded] broken_lacks_instructions
    unfolding broken_candidate_def by (simp del: map_of.simps)
  show ?thesis using a b c two_candidates_decoded empty_object_decoded by blast
qed

text \<open>
  The claim as stated fails on a payload that decodes but is not an object: \<open>[]\<close> is
  valid JSON, \<open>data.get\<close> raises on the list, and \<open>_parse_ai_response\<close> raises
  \<open>ValueError\<close>.
\<close>

theorem per_record_leniency_counterexample:
  "loads (answering []) (cleaned_text ''[]'') = Inr (JArray []) \<and>
   parse_ai_response (answering []) ''[]'' =
     Inl (ValueError (''Failed to process AI response: '' @ CHR 0x27 # ''list'' @
            CHR 0x27 # '' object has no attribute '' @ CHR 0x27 # ''get'' @ [CHR 0x27]))"
  by code_simp

section \<open>The most recent interactions\<close>

lemma slice_from_neg:
  "0 < limit \<Longrightarrow> slice_from xs (- limit) = drop (length xs - nat limit) xs"
  by (auto simp: slice_from_def slice_index_def max_def nat_diff_distrib'
      intro!: arg_cong2[where f=drop])

text \<open>
  For a positive limit \<open>get_recent_interactions\<close> returns the last \<open>min limit n\<close> records
  of a store of \<open>n\<close> records, in their order.
\<close>

lemma get_recent_positive:
  "0 < limit \<Longrightarrow>
     get_recent_interactions st limit =
       drop (length (get_all_interactions st) - nat limit) (get_all_interactions st)"
  by (simp add: get_recent_interactions_def Let_def slice_from_neg)

lemma get_recent_positive_length:
  "0 < limit \<Longrightarrow>
     length (get_recent_interactions st limit) =
       min (nat limit) (length (get_all_interactions st))"
  by (simp add: get_recent_positive)

lemma get_recent_two_of_five:
  "get_recent_interactions \<lparr>storage_file = f, contents = Some [r1, r2, r3, r4, r5]\<rparr> 2 =
     [r4, r5]"
  by (simp add: get_recent_interactions_def get_all_interactions_def slice_from_def
      slice_index_def)

text \<open>
  Claim C6 says that for every non-negative limit \<open>get_recent\<close> returns the last
  \<open>min limit n\<close> records. At the limit \<open>0\<close> the code does otherwise: the slice
  \<open>interactions[-0:]\<close> is \<open>interactions[0:]\<close>, and on a store of five records
  \<open>get_recent_interactions\<close> returns all five where the claim has none.
\<close>

theorem get_recent_zero_returns_all:
  "get_recent_interactions \<lparr>storage_file = f, contents = Some [r1, r2, r3, r4, r5]\<rparr> 0 =
     [r1, r2, r3, r4, r5]"
  by (simp add: get_recent_interactions_def get_all_interactions_def slice_from_def
      slice_index_def)

section \<open>The statistics\<close>

lemma two_logged_all:
  "get_all_interactions two_logged = [logged ''a'' True 3, logged ''b'' False 0]"
  by (simp add: two_logged_def get_all_interactions_def)

lemma one_failed_all: "get_all_interactions one_failed = [logged ''b'' False 0]"
  by (simp add: one_failed_def get_all_interactions_def)

lemma empty_store_all: "get_all_interactions empty_store = []"
  by (simp add: empty_store_def get_all_interactions_def)

text \<open>
  Claim C7, as the code has it. For every store, every file size and every pair of
  float operations, \<open>get_storage_stats\<close> never divides by zero: it returns a dictionary,
  or raises \<open>OverflowError\<close> where a quotient is beyond the range of a float. For a store
  with no interaction the dictionary has the one entry \<open>total_interactions = 0\<close>. For a
  store with interactions, with \<open>q\<close> the float of \<open>successful / total\<close>, it has the
  total, successful and failed counts, the success rate \<open>q * 100\<close>, the recipe counts
  summed over the records, the average, the name of the file and its size in bytes;
  the average is the integer \<open>0\<close> when no interaction is successful, and the float of
  \<open>total recipes / successful\<close> otherwise.
\<close>

theorem storage_stats:
  "(\<forall>m. get_storage_stats F st getsize \<noteq> Inl (ZeroDivisionError m)) \<and>
   ((\<exists>d. get_storage_stats F st getsize = Inr d) \<or>
    get_storage_stats F st getsize =
      Inl (OverflowError ''integer division result too large for a float'')) \<and>
   (get_all_interactions st = [] \<longrightarrow>
      get_storage_stats F st getsize = Inr [(''total_interactions'', PyInt 0)]) \<and>
   (\<forall>q. get_all_interactions st \<noteq> [] \<and>
        filter (\<lambda>i. success_po (parsed_output i)) (get_all_interactions st) = [] \<and>
        true_quotient F 0 (int (length (get_all_interactions st))) = Some q \<longrightarrow>
      get_storage_stats F st getsize =
        Inr [(''total_interactions'', PyInt (int (length (get_all_interactions st)))),
             (''successful_interactions'', PyInt 0),
             (''failed_interactions'', PyInt (int (length (get_all_interactions st)))),
             (''success_rate'', PyFloat (float_times F q 100)),
             (''total_recipes_generated'',
                PyInt (sum_list (map (\<lambda>i. int (recipe_count (parsed_output i)))
                                    (get_all_interactions st)))),
             (''average_recipes_per_interaction'', PyInt 0),
             (''storage_file'', PyStr (storage_file st)),
             (''file_size_bytes'', PyInt (int getsize))]) \<and>
   (\<forall>q a. filter (\<lambda>i. success_po (parsed_output i)) (get_all_interactions st) \<noteq> [] \<and>
        true_quotient F
          (int (length (filter (\<lambda>i. success_po (parsed_output i)) (get_all_interactions st))))
          (int (length (get_all_interactions st))) = Some q \<and>
        true_quotient F
          (sum_list (map (\<lambda>i. int (recipe_count (parsed_output i))) (get_all_interactions st)))
          (int (length (filter (\<lambda>i. success_po (parsed_output i)) (get_all_interactions st))))
          = Some a \<longrightarrow>
      get_storage_stats F st getsize =
        Inr [(''total_interactions'', PyInt (int (length (get_all_interactions st)))),
             (''successful_interactions'',
                PyInt (int (length (filter (\<lambda>i. success_po (parsed_output i))
                                      (get_all_interactions st))))),
             (''failed_interactions'',
                PyInt (int (length (get_all_interactions st)) -
                       int (length (filter (\<lambda>i. success_po (parsed_output i))
                                      (get_all_interactions st))))),
             (''success_rate'', PyFloat (float_times F q 100)),
             (''total_recipes_generated'',
                PyInt (sum_list (map (\<lambda>i. int (recipe_count (parsed_output i)))
                                    (get_all_interactions st)))),
             (''average_recipes_per_interaction'', PyFloat a),
             (''storage_file'', PyStr (storage_file st)),
             (''file_size_bytes'', PyInt (int getsize))])"
proof -
  let ?xs = "get_all_interactions st"
  let ?s = "filter (\<lambda>i. success_po (parsed_output i)) ?xs"
  have ex: "contents st \<noteq> None" if "?xs \<noteq> []"
    using that by (auto simp: get_all_interactions_def split: option.splits)
  have sx: "?xs \<noteq> []" if "?s \<noteq> []"
    using that by auto
  have z: "\<forall>m. get_storage_stats F st getsize \<noteq> Inl (ZeroDivisionError m)"
    by (simp add: get_storage_stats_def Let_def truediv_def split: option.splits)
  have r: "(\<exists>d. get_storage_stats F st getsize = Inr d) \<or>
    get_storage_stats F st getsize =
      Inl (OverflowError ''integer division result too large for a float'')"
    by (simp add: get_storage_stats_def Let_def truediv_def split: option.splits)
  have a: "?xs = [] \<longrightarrow>
      get_storage_stats F st getsize = Inr [(''total_interactions'', PyInt 0)]"
    by (simp add: get_storage_stats_def)
  have b: "\<forall>q. ?xs \<noteq> [] \<and> ?s = [] \<and> true_quotient F 0 (int (length ?xs)) = Some q \<longrightarrow>
      get_storage_stats F st getsize =
        Inr [(''total_interactions'', PyInt (int (length ?xs))),
             (''successful_interactions'', PyInt 0),
             (''failed_interactions'', PyInt (int (length ?xs))),
             (''success_rate'', PyFloat (float_times F q 100)),
             (''total_recipes_generated'',
                PyInt (sum_list (map (\<lambda>i. int (recipe_count (parsed_output i))) ?xs))),
             (''average_recipes_per_interaction'', PyInt 0),
             (''storage_file'', PyStr (storage_file st)),
             (''file_size_bytes'', PyInt (int getsize))]"
    using ex by (simp add: get_storage_stats_def Let_def truediv_def)
  have c: "\<forall>q a. ?s \<noteq> [] \<and>
        true_quotient F (int (length ?s)) (int (length ?xs)) = Some q \<and>
        true_quotient F
          (sum_list (map (\<lambda>i. int (recipe_count (parsed_output i))) ?xs))
          (int (length ?s)) = Some a \<longrightarrow>
      get_storage_stats F st getsize =
        Inr [(''total_interactions'', PyInt (int (length ?xs))),
             (''successful_interactions'', PyInt (int (length ?s))),
             (''failed_interactions'', PyInt (int (length ?xs) - int (length ?s))),
             (''success_rate'', PyFloat (float_times F q 100)),
             (''total_recipes_generated'',
                PyInt (sum_list (map (\<lambda>i. int (recipe_count (parsed_output i))) ?xs))),
             (''average_recipes_per_interaction'', PyFloat a),
             (''storage_file'', PyStr (storage_file st)),
             (''file_size_bytes'', PyInt (int getsize))]"
    using ex sx by (auto simp: get_storage_stats_def Let_def truediv_def)
  show ?thesis using z r a b c by blast
qed

theorem storage_stats_witness:
  "get_all_interactions empty_store = [] \<and>
   get_storage_stats written empty_store 25 = Inr [(''total_interactions'', PyInt 0)] \<and>
   get_all_interactions two_logged \<noteq> [] \<and>
   get_storage_stats written two_logged 1000 =
     Inr [(''total_interactions'', PyInt 2),
          (''successful_interactions'', PyInt 1),
          (''failed_interactions'', PyInt 1),
          (''success_rate'', PyFloat (FloatMul (IntDiv 1 2) 100)),
          (''total_recipes_generated'', PyInt 3),
          (''average_recipes_per_interaction'', PyFloat (IntDiv 3 1)),
          (''storage_file'', PyStr ''recipe_interactions.json''),
          (''file_size_bytes'', PyInt 1000)] \<and>
   get_all_interactions one_failed \<noteq> [] \<and>
   get_storage_stats written one_failed 500 =
     Inr [(''total_interactions'', PyInt 1),
          (''successful_interactions'', PyInt 0),
          (''failed_interactions'', PyInt 1),
          (''success_rate'', PyFloat (FloatMul (IntDiv 0 1) 100)),
          (''total_recipes_generated'', PyInt 0),
          (''average_recipes_per_interaction'', PyInt 0),
          (''storage_file'', PyStr ''recipe_interactions.json''),
          (''file_size_bytes'', PyInt 500)]"
proof -
  have a: "get_storage_stats written empty_store 25 = Inr [(''total_interactions'', PyInt 0)]"
    using storage_stats[of written empty_store 25] empty_store_all by simp
  have b: "get_storage_stats written two_logged 1000 =
     Inr [(''total_interactions'', PyInt 2),
          (''successful_interactions'', PyInt 1),
          (''failed_interactions'', PyInt 1),
          (''success_rate'', PyFloat (FloatMul (IntDiv 1 2) 100)),
          (''total_recipes_generated'', PyInt 3),
          (''average_recipes_per_interaction'', PyFloat (IntDiv 3 1)),
          (''storage_file'', PyStr ''recipe_interactions.json''),
          (''file_size_bytes'', PyInt 1000)]"
    using storage_stats[of written two_logged 1000]
    by (simp add: two_logged_all written_def) (simp add: logged_def two_logged_def)
  have c: "get_storage_stats written one_failed 500 =
     Inr [(''total_interactions'', PyInt 1),
          (''successful_interactions'', PyInt 0),
          (''failed_interactions'', PyInt 1),
          (''success_rate'', PyFloat (FloatMul (IntDiv 0 1) 100)),
          (''total_recipes_generated'', PyInt 0),
          (''average_recipes_per_interaction'', PyInt 0),
          (''storage_file'', PyStr ''recipe_interactions.json''),
          (''file_size_bytes'', PyInt 500)]"
    using storage_stats[of written one_failed 500]
    by (simp add: one_failed_all written_def) (simp add: logged_def one_failed_def)
  show ?thesis using a b c by (simp add: empty_store_all two_logged_all one_failed_all)
qed

text \<open>
  The claim as stated fails on the store with no interaction: the dictionary returned
  there has no success rate.
\<close>

theorem storage_stats_empty_counterexample:
  "get_storage_stats written empty_store 25 = Inr [(''total_interactions'', PyInt 0)] \<and>
   map_of [(''total_interactions'', PyInt 0 :: float_term py_value)] ''success_rate'' = None"
  by (simp add: get_storage_stats_def empty_store_all)

section \<open>Appending and reading back\<close>

lemma scan_by_id_append:
  "scan_by_id iid (xs @ [r]) =
     (case scan_by_id iid xs of
        Some x \<Rightarrow> Some x
      | None \<Rightarrow> if interaction_id r = iid then Some r else None)"
  by (induction xs) auto

lemma scan_by_id_fresh:
  "\<forall>r \<in> set xs. interaction_id r \<noteq> iid \<Longrightarrow> scan_by_id iid xs = None"
  by (induction xs) auto

text \<open>
  When no record of the store has the identifier that the append generates, the
  record read back under the returned identifier is the appended one.
\<close>

lemma roundtrip_fresh_id:
  assumes "contents st = Some xs"
    and "\<forall>r \<in> set xs. interaction_id r \<noteq> generate_interaction_id now1"
  shows "\<exists>st' r. store_interaction now1 now2 ings resp rs ok err st =
                   Inr (generate_interaction_id now1, st') \<and>
                 get_interaction_by_id st' (generate_interaction_id now1) = Some r \<and>
                 ingredients_ui (user_input r) = ings \<and>
                 recipe_count (parsed_output r) = length rs"
  using assms scan_by_id_fresh[OF assms(2)]
  by (simp add: store_interaction_def Let_def get_interaction_by_id_def
      get_all_interactions_def scan_by_id_append)

lemma id_noon: "generate_interaction_id noon = ''recipe_interaction_20240101_120000''"
  by code_simp

lemma id_noon_later:
  "generate_interaction_id noon_later = ''recipe_interaction_20240101_120000''"
  by code_simp

text \<open>
  Claim C8 says that, for every store state, the record read back under the identifier
  an append returns holds the ingredients and the recipe count of that append. Two
  appends within one second get the same identifier, and the scan returns the first
  record that has it: after appending \<open>[egg]\<close> with no recipe and then
  \<open>[rice, peas]\<close> with two recipes, the record read back under the identifier of the
  second append holds \<open>[egg]\<close> and the count \<open>0\<close>.
\<close>

theorem roundtrip_same_second:
  "(case store_interaction noon noon [''egg''] (Some ''{}'') [] False None empty_store of
      Inr (i1, s1) \<Rightarrow>
        (case store_interaction noon_later noon_later [''rice'', ''peas''] (Some ''{}'')
                [JObject [], JObject []] True None s1 of
           Inr (i2, s2) \<Rightarrow>
             i2 = i1 \<and>
             map_option (\<lambda>r. ingredients_ui (user_input r)) (get_interaction_by_id s2 i2) =
               Some [''egg''] \<and>
             map_option (\<lambda>r. recipe_count (parsed_output r)) (get_interaction_by_id s2 i2) =
               Some 0
         | Inl e \<Rightarrow> False)
    | Inl e \<Rightarrow> False)"
  by (simp add: store_interaction_def Let_def empty_store_def id_noon id_noon_later
      get_interaction_by_id_def get_all_interactions_def)

section \<open>The searches and the fence\<close>

lemma startswith_length: "startswith s sub \<Longrightarrow> length sub \<le> length s"
proof -
  assume "startswith s sub"
  then have "take (length sub) s = sub" unfolding startswith_def .
  then have "length (take (length sub) s) = length sub" by (rule arg_cong)
  then have "min (length s) (length sub) = length sub" unfolding length_take .
  then show ?thesis by linarith
qed

lemma occurs_at_bound: "occurs_at s sub i \<Longrightarrow> i + length sub \<le> length s"
  unfolding occurs_at_def using startswith_length[of "drop i s" sub] by auto

lemma occurs_at_append: "occurs_at (pre @ sub @ post) sub (length pre)"
  by (simp add: occurs_at_def startswith_def)

lemma occurs_at_split:
  "occurs_at s sub i \<Longrightarrow> s = take i s @ sub @ drop (i + length sub) s"
proof -
  assume a: "occurs_at s sub i"
  then have "take (length sub) (drop i s) = sub"
    by (simp add: occurs_at_def startswith_def)
  then have "drop i s = sub @ drop (length sub) (drop i s)"
    by (metis append_take_drop_id)
  then have "s = take i s @ sub @ drop (length sub) (drop i s)"
    by (metis append_take_drop_id)
  then show ?thesis by (simp add: add.commute)
qed

lemma occurs_at_Cons_Suc: "occurs_at (c # cs) sub (Suc k) = occurs_at cs sub k"
  by (simp add: occurs_at_def)

lemma occurs_at_Cons_0: "occurs_at (c # cs) sub 0 = startswith (c # cs) sub"
  by (simp add: occurs_at_def)

lemma occurs_at_Nil: "occurs_at [] sub k = (k = 0 \<and> sub = [])"
  by (auto simp: occurs_at_def startswith_def)

lemma find_from_none: "(\<forall>j. \<not> occurs_at s sub j) \<Longrightarrow> find_from sub i s = - 1"
proof (induction s arbitrary: i)
  case Nil
  then have "\<not> occurs_at [] sub 0" by blast
  then show ?case by (simp add: occurs_at_Nil)
next
  case (Cons c cs)
  have "\<not> occurs_at (c # cs) sub 0" using Cons.prems by simp
  then have ns: "\<not> startswith (c # cs) sub" by (simp add: occurs_at_Cons_0)
  have f: "\<forall>j. \<not> occurs_at cs sub j"
  proof
    fix j
    have "\<not> occurs_at (c # cs) sub (Suc j)" using Cons.prems by simp
    then show "\<not> occurs_at cs sub j" by (simp add: occurs_at_Cons_Suc)
  qed
  have "find_from sub (Suc i) cs = - 1" using Cons.IH[OF f] .
  with ns show ?case by simp
qed

lemma find_from_first:
  "occurs_at s sub k \<Longrightarrow> (\<forall>j<k. \<not> occurs_at s sub j) \<Longrightarrow> find_from sub i s = int (i + k)"
proof (induction s arbitrary: i k)
  case Nil
  then show ?case by (simp add: occurs_at_Nil)
next
  case (Cons c cs)
  show ?case
  proof (cases k)
    case 0
    with Cons.prems show ?thesis by (simp add: occurs_at_Cons_0)
  next
    case (Suc k')
    have ns: "\<not> startswith (c # cs) sub"
      using Cons.prems(2) Suc occurs_at_Cons_0[of c cs sub] by auto
    have o: "occurs_at cs sub k'"
      using Cons.prems(1) Suc by (simp add: occurs_at_Cons_Suc)
    have f: "\<forall>j<k'. \<not> occurs_at cs sub j"
    proof (intro allI impI)
      fix j assume "j < k'"
      then have "\<not> occurs_at (c # cs) sub (Suc j)" using Cons.prems(2) Suc by auto
      then show "\<not> occurs_at cs sub j" by (simp add: occurs_at_Cons_Suc)
    qed
    show ?thesis using ns Cons.IH[OF o f, of "Suc i"] Suc by simp
  qed
qed

lemma find_from_found:
  "find_from sub i s \<noteq> - 1 \<Longrightarrow>
     \<exists>k. find_from sub i s = int (i + k) \<and> occurs_at s sub k \<and> (\<forall>j<k. \<not> occurs_at s sub j)"
proof -
  assume a: "find_from sub i s \<noteq> - 1"
  then have "\<exists>j. occurs_at s sub j" using find_from_none by blast
  then obtain k where k: "occurs_at s sub k" "\<forall>j<k. \<not> occurs_at s sub j"
    using exists_least_iff[of "\<lambda>j. occurs_at s sub j"] by blast
  then show ?thesis using find_from_first by blast
qed

lemma rfind_from_none: "(\<forall>j. \<not> occurs_at s sub j) \<Longrightarrow> rfind_from sub i s = - 1"
proof (induction s arbitrary: i)
  case Nil
  then have "\<not> occurs_at [] sub 0" by blast
  then show ?case by (simp add: occurs_at_Nil)
next
  case (Cons c cs)
  have "\<not> occurs_at (c # cs) sub 0" using Cons.prems by simp
  then have ns: "\<not> startswith (c # cs) sub" by (simp add: occurs_at_Cons_0)
  have f: "\<forall>j. \<not> occurs_at cs sub j"
  proof
    fix j
    have "\<not> occurs_at (c # cs) sub (Suc j)" using Cons.prems by simp
    then show "\<not> occurs_at cs sub j" by (simp add: occurs_at_Cons_Suc)
  qed
  have "rfind_from sub (Suc i) cs = - 1" using Cons.IH[OF f] .
  with ns show ?case by (simp add: Let_def)
qed

lemma rfind_from_last:
  "occurs_at s sub k \<Longrightarrow> (\<forall>j>k. \<not> occurs_at s sub j) \<Longrightarrow> rfind_from sub i s = int (i + k)"
proof (induction s arbitrary: i k)
  case Nil
  then show ?case by (simp add: occurs_at_Nil)
next
  case (Cons c cs)
  show ?case
  proof (cases k)
    case 0
    have "\<forall>j. \<not> occurs_at cs sub j"
    proof
      fix j
      have "\<not> occurs_at (c # cs) sub (Suc j)" using Cons.prems(2) 0 by auto
      then show "\<not> occurs_at cs sub j" by (simp add: occurs_at_Cons_Suc)
    qed
    then have "rfind_from sub (Suc i) cs = - 1" by (rule rfind_from_none)
    with Cons.prems(1) 0 show ?thesis by (simp add: occurs_at_Cons_0 Let_def)
  next
    case (Suc k')
    have o: "occurs_at cs sub k'"
      using Cons.prems(1) Suc by (simp add: occurs_at_Cons_Suc)
    have f: "\<forall>j>k'. \<not> occurs_at cs sub j"
    proof (intro allI impI)
      fix j assume "k' < j"
      then have "\<not> occurs_at (c # cs) sub (Suc j)" using Cons.prems(2) Suc by auto
      then show "\<not> occurs_at cs sub j" by (simp add: occurs_at_Cons_Suc)
    qed
    have "rfind_from sub (Suc i) cs = int (Suc i + k')" using Cons.IH[OF o f] .
    then show ?thesis using Suc by (simp add: Let_def)
  qed
qed

text \<open>\<open>find\<close> is the first occurrence, \<open>rfind\<close> the last, \<open>in\<close> is occurrence.\<close>

lemma find_first:
  "occurs_at s sub k \<Longrightarrow> (\<forall>j<k. \<not> occurs_at s sub j) \<Longrightarrow> find s sub = int k"
  using find_from_first[of s sub k 0] by (simp add: find_def)

lemma rfind_last:
  "occurs_at s sub k \<Longrightarrow> (\<forall>j>k. \<not> occurs_at s sub j) \<Longrightarrow> rfind s sub = int k"
  using rfind_from_last[of s sub k 0] by (simp add: rfind_def)

lemma contains_iff: "contains s sub \<longleftrightarrow> (\<exists>j. occurs_at s sub j)"
proof
  assume "contains s sub"
  then have "find_from sub 0 s \<noteq> - 1" by (simp add: contains_def find_def)
  from find_from_found[OF this] show "\<exists>j. occurs_at s sub j" by blast
next
  assume "\<exists>j. occurs_at s sub j"
  then obtain k where k: "occurs_at s sub k" "\<forall>j<k. \<not> occurs_at s sub j"
    using exists_least_iff[of "\<lambda>j. occurs_at s sub j"] by blast
  then have "find s sub = int k" by (rule find_first)
  then show "contains s sub" by (simp add: contains_def)
qed

lemma slice_between:
  "a \<le> length s \<Longrightarrow> b \<le> length s \<Longrightarrow> slice s (int a) (int b) = take (b - a) (drop a s)"
  by (simp add: slice_def slice_index_def Let_def)


lemma occurs_at_drop:
  "k \<le> j \<Longrightarrow> occurs_at s sub j \<Longrightarrow> occurs_at (drop k s) sub (j - k)"
  by (auto simp: occurs_at_def)

lemma not_contains_drop:
  "\<not> contains (drop k s) sub \<Longrightarrow> \<forall>j\<ge>k. \<not> occurs_at s sub j"
  using occurs_at_drop contains_iff by blast

lemma marker_is_fence: \<open>occurs_at s ''```json'' j \<Longrightarrow> occurs_at s ''```'' j\<close>
proof -
  assume a: \<open>occurs_at s ''```json'' j\<close>
  have l7: \<open>length ''```json'' = 7\<close> by simp
  have l3: \<open>length ''```'' = 3\<close> by simp
  have \<open>take 7 (drop j s) = ''```json''\<close>
    using a unfolding occurs_at_def startswith_def l7 by blast
  then have \<open>take 3 (take 7 (drop j s)) = ''```''\<close> by simp
  then have \<open>take 3 (drop j s) = ''```''\<close> by (simp add: min_def)
  moreover have "j \<le> length s" using a unfolding occurs_at_def by blast
  ultimately show ?thesis unfolding occurs_at_def startswith_def l3 by blast
qed

lemma strip_Nil: "strip [] = []"
  by (simp add: strip_def)

lemma cleaned_text_tagged:
  assumes \<open>occurs_at (strip raw) ''```json'' p\<close>
    and \<open>\<forall>j<p. \<not> occurs_at (strip raw) ''```json'' j\<close>
    and \<open>occurs_at (strip raw) ''```'' q\<close>
    and \<open>\<forall>j>q. \<not> occurs_at (strip raw) ''```'' j\<close>
  shows "cleaned_text raw = strip (take (q - (p + 7)) (drop (p + 7) (strip raw)))"
proof -
  let ?t = "strip raw"
  have c: \<open>contains ?t ''```json''\<close> using assms(1) contains_iff by blast
  have f: \<open>find ?t ''```json'' = int p\<close> using assms(1,2) by (rule find_first)
  have r: \<open>rfind ?t ''```'' = int q\<close> using assms(3,4) by (rule rfind_last)
  have pb: "p + 7 \<le> length ?t" using occurs_at_bound[OF assms(1)] by simp
  have qb: "q \<le> length ?t" using occurs_at_bound[OF assms(3)] by simp
  have "slice ?t (int p + 7) (int q) = take (q - (p + 7)) (drop (p + 7) ?t)"
    using slice_between[OF pb qb] by (simp add: add.commute)
  then show ?thesis using c f r by (simp add: cleaned_text_def Let_def)
qed

lemma cleaned_text_generic:
  assumes \<open>\<forall>j. \<not> occurs_at (strip raw) ''```json'' j\<close>
    and \<open>occurs_at (strip raw) ''```'' p\<close>
    and \<open>\<forall>j<p. \<not> occurs_at (strip raw) ''```'' j\<close>
    and \<open>occurs_at (strip raw) ''```'' q\<close>
    and \<open>\<forall>j>q. \<not> occurs_at (strip raw) ''```'' j\<close>
  shows "cleaned_text raw = strip (take (q - (p + 3)) (drop (p + 3) (strip raw)))"
proof -
  let ?t = "strip raw"
  have nc: \<open>\<not> contains ?t ''```json''\<close> using assms(1) contains_iff by blast
  have c: \<open>contains ?t ''```''\<close> using assms(2) contains_iff by blast
  have f: \<open>find ?t ''```'' = int p\<close> using assms(2,3) by (rule find_first)
  have r: \<open>rfind ?t ''```'' = int q\<close> using assms(4,5) by (rule rfind_last)
  have pb: "p + 3 \<le> length ?t" using occurs_at_bound[OF assms(2)] by simp
  have qb: "q \<le> length ?t" using occurs_at_bound[OF assms(4)] by simp
  have "slice ?t (int p + 3) (int q) = take (q - (p + 3)) (drop (p + 3) ?t)"
    using slice_between[OF pb qb] by (simp add: add.commute)
  then show ?thesis using nc c f r by (simp add: cleaned_text_def Let_def)
qed

lemma cleaned_text_plain:
  assumes \<open>\<forall>j. \<not> occurs_at (strip raw) ''```'' j\<close>
  shows "cleaned_text raw = strip raw"
proof -
  let ?t = "strip raw"
  have \<open>\<forall>j. \<not> occurs_at ?t ''```json'' j\<close> using assms marker_is_fence by blast
  then have nc: \<open>\<not> contains ?t ''```json''\<close> using contains_iff by blast
  have nf: \<open>\<not> contains ?t ''```''\<close> using assms contains_iff by blast
  show ?thesis using nc nf by (simp add: cleaned_text_def Let_def)
qed

text \<open>
  No fence marker begins strictly inside a JSON-tagged marker: past the first of its
  backquotes the next three characters include a letter of \<open>json\<close>.
\<close>

lemma no_fence_inside_marker:
  assumes \<open>occurs_at s ''```json'' p\<close> and "p < j" and "j < p + 7"
  shows \<open>\<not> occurs_at s ''```'' j\<close>
proof
  assume o: \<open>occurs_at s ''```'' j\<close>
  have l7: \<open>length ''```json'' = 7\<close> by simp
  have l3: \<open>length ''```'' = 3\<close> by simp
  have m: \<open>take 7 (drop p s) = ''```json''\<close>
    using assms(1) unfolding occurs_at_def startswith_def l7 by blast
  define rest where "rest = drop 7 (drop p s)"
  have dp: \<open>drop p s = ''```json'' @ rest\<close>
    unfolding rest_def using m by (metis append_take_drop_id)
  obtain d where d: "j = p + d" "0 < d" "d < 7"
    using assms(2,3) by (metis add_less_cancel_left less_imp_add_positive)
  have \<open>take 3 (drop j s) = ''```''\<close>
    using o unfolding occurs_at_def startswith_def l3 by blast
  then have \<open>take 3 (drop d (drop p s)) = ''```''\<close>
    using d(1) by (simp add: add.commute)
  then have e: \<open>take 3 (drop d (''```json'' @ rest)) = ''```''\<close>
    unfolding dp .
  consider "d = 1" | "d = 2" | "d = 3" | "d = 4" | "d = 5" | "d = 6"
    using d(2,3) by linarith
  then show False
  proof cases
    case 1
    with e show False by simp
  next
    case 2
    with e show False by simp
  next
    case 3
    with e show False by simp
  next
    case 4
    with e show False by simp
  next
    case 5
    with e show False by simp
  next
    case 6
    with e show False by simp
  qed
qed

lemma unclosed_fence_last:
  assumes \<open>occurs_at s ''```json'' p\<close>
    and \<open>\<forall>j\<ge>p + 7. \<not> occurs_at s ''```'' j\<close>
  shows \<open>rfind s ''```'' = int p\<close>
proof -
  have a: \<open>occurs_at s ''```'' p\<close> using assms(1) by (rule marker_is_fence)
  have b: \<open>\<forall>j>p. \<not> occurs_at s ''```'' j\<close>
  proof (intro allI impI)
    fix j assume jp: "p < j"
    show \<open>\<not> occurs_at s ''```'' j\<close>
    proof (cases "j < p + 7")
      case True
      with assms(1) jp show ?thesis by (rule no_fence_inside_marker)
    next
      case False
      then show ?thesis using assms(2) by simp
    qed
  qed
  show ?thesis using a b by (rule rfind_last)
qed

lemma slice_reversed: "b \<le> a \<Longrightarrow> slice s (int a) (int b) = []"
  by (simp add: slice_def slice_index_def Let_def)

lemma cleaned_text_unclosed:
  assumes \<open>occurs_at (strip raw) ''```json'' p\<close>
    and \<open>\<forall>j<p. \<not> occurs_at (strip raw) ''```json'' j\<close>
    and \<open>\<forall>j\<ge>p + 7. \<not> occurs_at (strip raw) ''```'' j\<close>
  shows \<open>rfind (strip raw) ''```'' = find (strip raw) ''```json'' \<and> cleaned_text raw = []\<close>
proof -
  let ?t = "strip raw"
  have c: \<open>contains ?t ''```json''\<close> using assms(1) contains_iff by blast
  have f: \<open>find ?t ''```json'' = int p\<close> using assms(1,2) by (rule find_first)
  have r: \<open>rfind ?t ''```'' = int p\<close> using assms(1,3) by (rule unclosed_fence_last)
  have "slice ?t (int (p + 7)) (int p) = []" by (rule slice_reversed) simp
  then have "slice ?t (int p + 7) (int p) = []" by (simp add: add.commute)
  then show ?thesis using c f r by (simp add: cleaned_text_def Let_def strip_Nil)
qed

section \<open>Extraction between fences\<close>

lemma find_is_first:
  "find s sub = int k \<Longrightarrow> occurs_at s sub k \<and> (\<forall>j<k. \<not> occurs_at s sub j)"
proof -
  assume a: "find s sub = int k"
  then have "find_from sub 0 s \<noteq> - 1" by (simp add: find_def)
  from find_from_found[OF this] a show ?thesis by (auto simp: find_def)
qed

lemma parse_empty_recipes:
  assumes \<open>loads L (cleaned_text raw) = Inr (JObject [(''recipes'', JArray [])])\<close>
  shows "parse_ai_response L raw = Inr []"
  using assms by (simp add: parse_ai_response_def parse_body_def get_recipes_def iterate_def)

lemma fenced_cleaned: \<open>cleaned_text fenced_example = ''{"recipes":[]}''\<close>
  by code_simp

text \<open>
  Claim C4, as the code has it. Let \<open>t\<close> be the trimmed raw text. If the JSON-tagged
  marker occurs in \<open>t\<close>, first at \<open>p\<close>, and the last fence marker is at \<open>q\<close>, the
  candidate that is decoded is the text strictly between the end of the marker,
  \<open>p + 7\<close>, and \<open>q\<close>, trimmed. Otherwise, if a fence marker occurs, first at \<open>p\<close> and
  last at \<open>q\<close>, the candidate is the text between \<open>p + 3\<close> and \<open>q\<close>, trimmed. Otherwise
  the candidate is \<open>t\<close>. And the raw text \<open>fenced_example\<close> parses to the empty recipe
  sequence, for every decoder that decodes the document between its fences.
\<close>

theorem fence_extraction:
  \<open>(occurs_at (strip raw) ''```json'' p \<and> (\<forall>j<p. \<not> occurs_at (strip raw) ''```json'' j) \<and>
    occurs_at (strip raw) ''```'' q \<and> (\<forall>j>q. \<not> occurs_at (strip raw) ''```'' j) \<longrightarrow>
      cleaned_text raw = strip (take (q - (p + 7)) (drop (p + 7) (strip raw)))) \<and>
   ((\<forall>j. \<not> occurs_at (strip raw) ''```json'' j) \<and>
    occurs_at (strip raw) ''```'' p \<and> (\<forall>j<p. \<not> occurs_at (strip raw) ''```'' j) \<and>
    occurs_at (strip raw) ''```'' q \<and> (\<forall>j>q. \<not> occurs_at (strip raw) ''```'' j) \<longrightarrow>
      cleaned_text raw = strip (take (q - (p + 3)) (drop (p + 3) (strip raw)))) \<and>
   ((\<forall>j. \<not> occurs_at (strip raw) ''```'' j) \<longrightarrow> cleaned_text raw = strip raw) \<and>
   (loads L ''{"recipes":[]}'' = Inr (JObject [(''recipes'', JArray [])]) \<longrightarrow>
      parse_ai_response L fenced_example = Inr [])\<close>
proof -
  have a: \<open>loads L ''{"recipes":[]}'' = Inr (JObject [(''recipes'', JArray [])]) \<longrightarrow>
      parse_ai_response L fenced_example = Inr []\<close>
    using parse_empty_recipes[of L fenced_example] by (simp add: fenced_cleaned)
  show ?thesis
    using a cleaned_text_tagged[of raw p q] cleaned_text_generic[of raw p q]
      cleaned_text_plain[of raw]
    by blast
qed

lemma fenced_facts:
  \<open>find (strip fenced_example) ''```json'' = 0 \<and>
   occurs_at (strip fenced_example) ''```'' 23 \<and> length (strip fenced_example) = 26 \<and>
   strip (take (23 - (0 + 7)) (drop (0 + 7) (strip fenced_example))) = ''{"recipes":[]}''\<close>
  by code_simp

lemma generic_facts:
  \<open>\<not> contains (strip generic_example) ''```json'' \<and>
   find (strip generic_example) ''```'' = 6 \<and>
   occurs_at (strip generic_example) ''```'' 25 \<and> length (strip generic_example) = 28 \<and>
   strip (take (25 - (6 + 3)) (drop (6 + 3) (strip generic_example))) = ''{"recipes":[]}''\<close>
  by code_simp

lemma bare_facts:
  \<open>\<not> contains (strip '' {"recipes":[]} '') ''```'' \<and>
   strip '' {"recipes":[]} '' = ''{"recipes":[]}''\<close>
  by code_simp

lemma loads_empty_recipes:
  \<open>loads (answering []) ''{"recipes":[]}'' = Inr (JObject [(''recipes'', JArray [])])\<close>
  by code_simp

theorem fence_extraction_witness:
  \<open>cleaned_text fenced_example = ''{"recipes":[]}'' \<and>
   cleaned_text generic_example = ''{"recipes":[]}'' \<and>
   cleaned_text '' {"recipes":[]} '' = ''{"recipes":[]}'' \<and>
   parse_ai_response (answering []) fenced_example = Inr []\<close>
proof -
  have f1: \<open>occurs_at (strip fenced_example) ''```json'' 0\<close>
    using find_is_first[of "strip fenced_example" _ 0] fenced_facts by simp
  have f2: \<open>\<forall>j>23. \<not> occurs_at (strip fenced_example) ''```'' j\<close>
  proof (intro allI impI)
    fix j :: nat assume "23 < j"
    then show \<open>\<not> occurs_at (strip fenced_example) ''```'' j\<close>
      using occurs_at_bound[of "strip fenced_example" \<open>''```''\<close> j] fenced_facts by auto
  qed
  have a: \<open>cleaned_text fenced_example = ''{"recipes":[]}''\<close>
    using fence_extraction[of fenced_example 0 23 "answering []"] f1 f2 fenced_facts
    by simp
  have g0: \<open>\<forall>j. \<not> occurs_at (strip generic_example) ''```json'' j\<close>
    using generic_facts contains_iff by blast
  have g1: \<open>occurs_at (strip generic_example) ''```'' 6 \<and>
            (\<forall>j<6. \<not> occurs_at (strip generic_example) ''```'' j)\<close>
    using find_is_first[of "strip generic_example" _ 6] generic_facts by simp
  have g2: \<open>\<forall>j>25. \<not> occurs_at (strip generic_example) ''```'' j\<close>
  proof (intro allI impI)
    fix j :: nat assume "25 < j"
    then show \<open>\<not> occurs_at (strip generic_example) ''```'' j\<close>
      using occurs_at_bound[of "strip generic_example" \<open>''```''\<close> j] generic_facts by auto
  qed
  have b: \<open>cleaned_text generic_example = ''{"recipes":[]}''\<close>
    using fence_extraction[of generic_example 6 25 "answering []"] g0 g1 g2 generic_facts
    by simp
  have h: \<open>\<forall>j. \<not> occurs_at (strip '' {"recipes":[]} '') ''```'' j\<close>
    using bare_facts contains_iff by blast
  have c: \<open>cleaned_text '' {"recipes":[]} '' = ''{"recipes":[]}''\<close>
    using fence_extraction[of \<open>'' {"recipes":[]} ''\<close> 0 0 "answering []"] h bare_facts
    by simp
  have d: \<open>parse_ai_response (answering []) fenced_example = Inr []\<close>
    using fence_extraction[of fenced_example 0 23 "answering []"] loads_empty_recipes
    by blast
  show ?thesis using a b c d by blast
qed

text \<open>
  The claim as stated takes the text between the markers as the candidate. The code
  trims that text first, and the two differ in what is decoded: with a form feed on
  either side of the document, the text between the markers does not decode, and
  \<open>_parse_ai_response\<close> succeeds.
\<close>

theorem fence_untrimmed_counterexample:
  \<open>cleaned_text formfeed_example \<noteq>
     slice (strip formfeed_example) (find (strip formfeed_example) ''```json'' + 7)
       (rfind (strip formfeed_example) ''```'') \<and>
   json_loads (slice (strip formfeed_example) (find (strip formfeed_example) ''```json'' + 7)
       (rfind (strip formfeed_example) ''```'')) = Inl (JSONDecodeError ''Expecting value'') \<and>
   parse_ai_response (answering []) formfeed_example = Inr []\<close>
  by code_simp

section \<open>The fence that is never closed\<close>

text \<open>
  Claim C10. Let the JSON-tagged marker occur in the trimmed raw text, first at \<open>p\<close>,
  and let no fence marker occur at or after the end of that marker, \<open>p + 7\<close>. Then
  the last fence marker is the opening marker itself (\<open>rfind\<close> returns what \<open>find\<close>
  returned), the slice from \<open>p + 7\<close> to \<open>p\<close> is empty, the candidate is the empty
  text, and, the decoder raising \<open>JSONDecodeError\<close> on the empty text,
  \<open>_parse_ai_response\<close> fails with the \<open>ValueError\<close> of the decoding failure: it does
  not fall back to the full text.
\<close>

theorem unclosed_fence:
  \<open>occurs_at (strip raw) ''```json'' p \<Longrightarrow>
   \<forall>j<p. \<not> occurs_at (strip raw) ''```json'' j \<Longrightarrow>
   \<forall>j\<ge>p + 7. \<not> occurs_at (strip raw) ''```'' j \<Longrightarrow>
   loads L [] = Inl (JSONDecodeError m) \<Longrightarrow>
     rfind (strip raw) ''```'' = find (strip raw) ''```json'' \<and>
     slice (strip raw) (find (strip raw) ''```json'' + 7) (rfind (strip raw) ''```'') = [] \<and>
     cleaned_text raw = [] \<and>
     parse_ai_response L raw = Inl (ValueError ''Failed to parse AI response as JSON'')\<close>
proof -
  assume o: \<open>occurs_at (strip raw) ''```json'' p\<close>
    and f: \<open>\<forall>j<p. \<not> occurs_at (strip raw) ''```json'' j\<close>
    and n: \<open>\<forall>j\<ge>p + 7. \<not> occurs_at (strip raw) ''```'' j\<close>
    and l: "loads L [] = Inl (JSONDecodeError m)"
  have c: \<open>rfind (strip raw) ''```'' = find (strip raw) ''```json'' \<and> cleaned_text raw = []\<close>
    using o f n by (rule cleaned_text_unclosed)
  have fp: \<open>find (strip raw) ''```json'' = int p\<close> using o f by (rule find_first)
  have "slice (strip raw) (int (p + 7)) (int p) = []" by (rule slice_reversed) simp
  then have s: \<open>slice (strip raw) (find (strip raw) ''```json'' + 7)
                  (rfind (strip raw) ''```'') = []\<close>
    using c fp by (simp add: add.commute)
  have "loads L (cleaned_text raw) = Inl (JSONDecodeError m)" using c l by simp
  then have "parse_ai_response L raw = Inl (ValueError ''Failed to parse AI response as JSON'')"
    by (rule parse_decode_error)
  with c s show ?thesis by blast
qed

lemma unclosed_facts:
  \<open>find (strip unclosed_example) ''```json'' = 0 \<and>
   \<not> contains (drop (0 + 7) (strip unclosed_example)) ''```'' \<and>
   loads (answering []) [] = Inl (JSONDecodeError ''Expecting value'')\<close>
  by code_simp

theorem unclosed_fence_witness:
  \<open>rfind (strip unclosed_example) ''```'' = find (strip unclosed_example) ''```json'' \<and>
   cleaned_text unclosed_example = [] \<and>
   parse_ai_response (answering []) unclosed_example =
     Inl (ValueError ''Failed to parse AI response as JSON'')\<close>
proof -
  have a: \<open>occurs_at (strip unclosed_example) ''```json'' 0 \<and>
           (\<forall>j<0. \<not> occurs_at (strip unclosed_example) ''```json'' j)\<close>
    using find_is_first[of "strip unclosed_example" _ 0] unclosed_facts by simp
  have b: \<open>\<forall>j\<ge>0 + 7. \<not> occurs_at (strip unclosed_example) ''```'' j\<close>
    using not_contains_drop[of "0 + 7" "strip unclosed_example"] unclosed_facts by blast
  have l: "loads (answering []) [] = Inl (JSONDecodeError ''Expecting value'')"
    using unclosed_facts by blast
  show ?thesis
    using unclosed_fence[of unclosed_example 0 "answering []", OF _ _ b l] a by blast
qed

section \<open>The decoder consumes its input\<close>

lemma dropWhile_le: "length (dropWhile P xs) \<le> length xs"
  by (rule length_dropWhile_le)

lemma match_integer_len: "match_integer cs = Some (ds, r) \<Longrightarrow> length r < length cs"
  using dropWhile_le[of is_digit "tl cs"]
  by (cases cs) (auto simp: match_integer_def split: if_splits)


lemma match_frac_len: "match_frac cs = (f, r) \<Longrightarrow> length r \<le> length cs"
proof (cases cs)
  case Nil
  then show "match_frac cs = (f, r) \<Longrightarrow> length r \<le> length cs"
    by (simp add: match_frac_def)
next
  case (Cons p rest)
  assume a: "match_frac cs = (f, r)"
  show "length r \<le> length cs"
  proof (cases rest)
    case Nil
    with Cons a show ?thesis by (simp add: match_frac_def)
  next
    case c2: (Cons d rest2)
    have "length (dropWhile is_digit rest2) \<le> length rest2" by (rule dropWhile_le)
    with Cons c2 a show ?thesis
      by (auto simp: match_frac_def split: if_splits)
  qed
qed


lemma match_exp_len: "match_exp cs = (f, r) \<Longrightarrow> length r \<le> length cs"
proof (cases cs)
  case Nil
  then show "match_exp cs = (f, r) \<Longrightarrow> length r \<le> length cs"
    by (simp add: match_exp_def)
next
  case (Cons e rest)
  assume a: "match_exp cs = (f, r)"
  have d1: "length (dropWhile is_digit rest) \<le> length rest" by (rule dropWhile_le)
  have d2: "length (dropWhile is_digit (tl rest)) \<le> length (tl rest)" by (rule dropWhile_le)
  show "length r \<le> length cs"
    using Cons a d1 d2
    by (cases rest) (auto simp: match_exp_def Let_def split: if_splits)
qed


lemma match_number_len: "match_number cs = Some (v, r) \<Longrightarrow> length r < length cs"
proof -
  assume a: "match_number cs = Some (v, r)"
  define sr where "sr = (case cs of [] \<Rightarrow> ([], cs)
             | c # rest \<Rightarrow> if c = CHR ''-'' then ([c], rest) else ([], cs))"
  obtain sign r0 where s: "sr = (sign, r0)" by (cases sr)
  have l0: "length r0 \<le> length cs"
    using s unfolding sr_def by (cases cs) (auto split: if_splits)
  have m: "match_number cs =
      (case match_integer r0 of
           None \<Rightarrow> None
         | Some (ds, r1) \<Rightarrow>
             (let (frac, r2) = match_frac r1; (ex, r3) = match_exp r2
              in if frac = [] \<and> ex = []
                 then Some (JInt (if sign = [] then int (nat_of_digits ds)
                                  else - int (nat_of_digits ds)), r3)
                 else Some (JFloat (sign @ ds @ frac @ ex), r3)))"
    unfolding match_number_def sr_def[symmetric] s by simp
  obtain ds r1 where i: "match_integer r0 = Some (ds, r1)"
    using a m by (cases "match_integer r0") auto
  obtain frac r2 where f: "match_frac r1 = (frac, r2)" by (cases "match_frac r1")
  obtain ex r3 where e: "match_exp r2 = (ex, r3)" by (cases "match_exp r2")
  have "r = r3"
    using a by (simp add: m i f e split: if_splits)
  then show ?thesis
    using l0 match_integer_len[OF i] match_frac_len[OF f] match_exp_len[OF e] by simp
qed

text \<open>
  Whatever a scanner returns, it returns with a shorter rest: the tests that guard the
  array and object loops hold whenever they are evaluated.
\<close>

lemma scan_progress:
  shows "\<forall>v r. scan_once cs = Inr (v, r) \<longrightarrow> length r < length cs"
    and "\<forall>v r. scan_array acc cs = Inr (v, r) \<longrightarrow> length r < length cs"
    and "\<forall>v r. scan_object acc' cs' = Inr (v, r) \<longrightarrow> length r < length cs'"
proof (induction cs and acc cs and acc' cs' rule: scan_once_scan_array_scan_object.induct)
  case (1 cs)
  show ?case
  proof (intro allI impI)
    fix v r assume a: "scan_once cs = Inr (v, r)"
    show "length r < length cs"
    proof (cases cs)
      case Nil
      with a show ?thesis by (simp add: scan_once.simps[of "[]"])
    next
      case (Cons c rest)
      note unf = scan_once.simps[of "c # rest"]
      consider (str) "c = CHR 0x22"
        | (obj) "c \<noteq> CHR 0x22" "c = CHR ''{''"
        | (arr) "c \<noteq> CHR 0x22" "c \<noteq> CHR ''{''" "c = CHR ''[''"
        | (other) "c \<noteq> CHR 0x22" "c \<noteq> CHR ''{''" "c \<noteq> CHR ''[''"
        by blast
      then show ?thesis
      proof cases
        case str
        have "scan_once (c # rest) =
                (case scanstring [] rest of
                   Inl e \<Rightarrow> Inl e
                 | Inr (s, r) \<Rightarrow> Inr (JString s, r))"
          by (subst unf) (simp add: str)
        with a Cons obtain s where "scanstring [] rest = Inr (s, r)"
          by (auto split: sum.splits)
        then have "length r < length rest" by (rule scanstring_length)
        with Cons show ?thesis by simp
      next
        case obj
        have e: "scan_once (c # rest) =
                (case skip_ws rest of
                   [] \<Rightarrow> Inl (JSONDecodeError ''Expecting property name enclosed in double quotes'')
                 | d # r \<Rightarrow>
                     if d = CHR ''}'' then Inr (JObject [], r)
                     else if d = CHR 0x22 then scan_object [] r
                     else Inl (JSONDecodeError ''Expecting property name enclosed in double quotes''))"
          by (subst unf) (simp add: obj)
        from a Cons e obtain d r' where sk: "skip_ws rest = d # r'"
          by (cases "skip_ws rest") auto
        have lr: "length r' < length rest" using sk by (rule skip_ws_Cons_length)
        show ?thesis
        proof (cases "d = CHR ''}''")
          case True
          with a Cons e sk have "r = r'" by simp
          with lr Cons show ?thesis by simp
        next
          case nb: False
          show ?thesis
          proof (cases "d = CHR 0x22")
            case True
            with a Cons e sk nb have so: "scan_object [] r' = Inr (v, r)" by simp
            have "\<forall>v r. scan_object [] r' = Inr (v, r) \<longrightarrow> length r < length r'"
              using "1.IH"(1)[OF Cons obj(1) obj(2) sk nb True] .
            with so have "length r < length r'" by blast
            with lr Cons show ?thesis by simp
          next
            case False
            with a Cons e sk nb show ?thesis by simp
          qed
        qed
      next
        case arr
        have e: "scan_once (c # rest) =
                (case skip_ws rest of
                   [] \<Rightarrow> Inl (JSONDecodeError ''Expecting value'')
                 | d # r \<Rightarrow>
                     if d = CHR '']'' then Inr (JArray [], r)
                     else scan_array [] (d # r))"
          by (subst unf) (simp add: arr)
        from a Cons e obtain d r' where sk: "skip_ws rest = d # r'"
          by (cases "skip_ws rest") auto
        have lr: "length r' < length rest" using sk by (rule skip_ws_Cons_length)
        show ?thesis
        proof (cases "d = CHR '']''")
          case True
          with a Cons e sk have "r = r'" by simp
          with lr Cons show ?thesis by simp
        next
          case False
          with a Cons e sk have sa: "scan_array [] (d # r') = Inr (v, r)" by simp
          have "\<forall>v r. scan_array [] (d # r') = Inr (v, r) \<longrightarrow> length r < length (d # r')"
            using "1.IH"(2)[OF Cons arr(1) arr(2) arr(3) sk False] .
          with sa have "length r < length (d # r')" by blast
          with lr Cons show ?thesis by simp
        qed
      next
        case other
        have e: "scan_once (c # rest) =
          (if c = CHR ''n'' \<and> startswith (c # rest) ''null'' then Inr (JNull, drop 4 (c # rest))
           else if c = CHR ''t'' \<and> startswith (c # rest) ''true''
             then Inr (JBool True, drop 4 (c # rest))
           else if c = CHR ''f'' \<and> startswith (c # rest) ''false''
             then Inr (JBool False, drop 5 (c # rest))
           else
            (case match_number (c # rest) of
               Some res \<Rightarrow> Inr res
             | None \<Rightarrow>
                 if c = CHR ''N'' \<and> startswith (c # rest) ''NaN''
                   then Inr (JFloat ''NaN'', drop 3 (c # rest))
                 else if c = CHR ''I'' \<and> startswith (c # rest) ''Infinity''
                   then Inr (JFloat ''Infinity'', drop 8 (c # rest))
                 else if c = CHR ''-'' \<and> startswith (c # rest) ''-Infinity''
                   then Inr (JFloat ''-Infinity'', drop 9 (c # rest))
                 else Inl (JSONDecodeError ''Expecting value'')))"
          by (subst unf) (simp add: other)
        have dr: "length (drop (Suc k) (c # rest)) < length (c # rest)" for k
          by simp
        have d3: "length (drop 3 (c # rest)) < length (c # rest)"
          and d4: "length (drop 4 (c # rest)) < length (c # rest)"
          and d5: "length (drop 5 (c # rest)) < length (c # rest)"
          and d8: "length (drop 8 (c # rest)) < length (c # rest)"
          and d9: "length (drop 9 (c # rest)) < length (c # rest)"
          by simp_all
        have mn: "match_number (c # rest) = Some (v, r) \<Longrightarrow> length r < length (c # rest)"
          by (rule match_number_len)
        have "length r < length (c # rest)"
          using a[unfolded Cons e] d3 d4 d5 d8 d9 mn
          by (auto split: if_splits option.splits simp del: drop_Suc_Cons drop_Cons_numeral length_drop)
        with Cons show ?thesis by simp
      qed
    qed
  qed
next
  case (2 acc cs)
  show ?case
  proof (intro allI impI)
    fix v r assume a: "scan_array acc cs = Inr (v, r)"
    note unf = scan_array.simps[of acc cs]
    from a unf obtain w y where so: "scan_once cs = Inr (w, y)"
      by (cases "scan_once cs") auto
    have ly: "length y < length cs" using "2.IH"(1) so by blast
    have e: "scan_array acc cs =
               (case skip_ws y of
                  [] \<Rightarrow> Inl (JSONDecodeError ''Expecting , delimiter'')
                | d # r1 \<Rightarrow>
                    if d = CHR '']'' then Inr (JArray (acc @ [w]), r1)
                    else if d = CHR '','' then scan_array (acc @ [w]) (skip_ws r1)
                    else Inl (JSONDecodeError ''Expecting , delimiter''))"
      by (subst unf) (simp add: so ly)
    from a e obtain d r1 where sk: "skip_ws y = d # r1"
      by (cases "skip_ws y") auto
    have l1: "length r1 < length y" using sk by (rule skip_ws_Cons_length)
    show "length r < length cs"
    proof (cases "d = CHR '']''")
      case True
      with a e sk have "r = r1" by simp
      with l1 ly show ?thesis by simp
    next
      case nb: False
      show ?thesis
      proof (cases "d = CHR '',''")
        case True
        with a e sk nb have sa: "scan_array (acc @ [w]) (skip_ws r1) = Inr (v, r)" by simp
        have "\<forall>v r. scan_array (acc @ [w]) (skip_ws r1) = Inr (v, r) \<longrightarrow>
                length r < length (skip_ws r1)"
          using "2.IH"(2)[OF so refl ly sk nb True] .
        with sa have "length r < length (skip_ws r1)" by blast
        with skip_ws_length[of r1] l1 ly show ?thesis by simp
      next
        case False
        with a e sk nb show ?thesis by simp
      qed
    qed
  qed
next
  case (3 acc cs)
  show ?case
  proof (intro allI impI)
    fix v r assume a: "scan_object acc cs = Inr (v, r)"
    note unf = scan_object.simps[of acc cs]
    from a unf obtain key y where ss: "scanstring [] cs = Inr (key, y)"
      by (cases "scanstring [] cs") auto
    have ly: "length y < length cs" using ss by (rule scanstring_length)
    have e1: "scan_object acc cs =
      (case skip_ws y of
         [] \<Rightarrow> Inl (JSONDecodeError ''Expecting : delimiter'')
       | d # r1 \<Rightarrow>
           if d = CHR '':'' then
             (case scan_once (skip_ws r1) of
                Inl e \<Rightarrow> Inl e
              | Inr (v, r2) \<Rightarrow>
                  if length r2 < length cs then
                    (case skip_ws r2 of
                       [] \<Rightarrow> Inl (JSONDecodeError ''Expecting , delimiter'')
                     | d2 # r3 \<Rightarrow>
                         if d2 = CHR ''}'' then Inr (JObject (dict_set acc key v), r3)
                         else if d2 = CHR '','' then
                           (case skip_ws r3 of
                              [] \<Rightarrow> Inl (JSONDecodeError
                                 ''Expecting property name enclosed in double quotes'')
                            | d3 # r4 \<Rightarrow>
                                if d3 = CHR 0x22 then scan_object (dict_set acc key v) r4
                                else Inl (JSONDecodeError
                                  ''Expecting property name enclosed in double quotes''))
                         else Inl (JSONDecodeError ''Expecting , delimiter''))
                  else Inl (OutsideModel ''no progress''))
           else Inl (JSONDecodeError ''Expecting : delimiter''))"
      by (subst unf) (simp add: ss)
    from a e1 obtain d r1 where sk: "skip_ws y = d # r1"
      by (cases "skip_ws y") auto
    have dc: "d = CHR '':''"
      using a e1 sk by (cases "d = CHR '':''") auto
    from a e1 sk dc obtain w r2 where so: "scan_once (skip_ws r1) = Inr (w, r2)"
      by (cases "scan_once (skip_ws r1)") auto
    have g: "length r2 < length cs"
      using a e1 sk dc so by (cases "length r2 < length cs") auto
    from a e1 sk dc so g obtain d2 r3 where sk2: "skip_ws r2 = d2 # r3"
      by (cases "skip_ws r2") auto
    have l3: "length r3 < length r2" using sk2 by (rule skip_ws_Cons_length)
    show "length r < length cs"
    proof (cases "d2 = CHR ''}''")
      case True
      with a e1 sk dc so g sk2 have "r = r3" by simp
      with l3 g show ?thesis by simp
    next
      case nb: False
      show ?thesis
      proof (cases "d2 = CHR '',''")
        case False
        with a e1 sk dc so g sk2 nb show ?thesis by simp
      next
        case cm: True
        from a e1 sk dc so g sk2 nb cm obtain d3 r4 where sk3: "skip_ws r3 = d3 # r4"
          by (cases "skip_ws r3") auto
        have l4: "length r4 < length r3" using sk3 by (rule skip_ws_Cons_length)
        have q: "d3 = CHR 0x22"
          using a e1 sk dc so g sk2 nb cm sk3 by (cases "d3 = CHR 0x22") auto
        have sobj: "scan_object (dict_set acc key w) r4 = Inr (v, r)"
          using a e1 sk dc so g sk2 nb cm sk3 q by simp
        have "\<forall>v r. scan_object (dict_set acc key w) r4 = Inr (v, r) \<longrightarrow> length r < length r4"
          using "3.IH"(2)[OF ss refl sk dc so refl g sk2 nb cm sk3 q] .
        with sobj have "length r < length r4" by blast
        with l4 l3 g show ?thesis by simp
      qed
    qed
  qed
qed

lemma scan_once_progress: "scan_once cs = Inr (v, r) \<Longrightarrow> length r < length cs"
  using scan_progress(1) by blast

end
